theory Spec2Isabelle
  imports Main
begin

section \<open>Memory, exceptions and callable payload types\<close>

text \<open>
  The repository holds three drafts of one header that implements a type-erased callable
  container \<open>function<R(Args...)>\<close> with a small-buffer optimisation:
  \<^item> \<open>src/unnamed/part_000\<close> (names without suffix below),
  \<^item> the first draft in \<open>src/function.h\<close>, lines 1-220 (suffix \<open>_hA\<close>),
  \<^item> the second draft in \<open>src/function.h\<close>, lines 220-407 (suffix \<open>_hB\<close>).

  A \<open>function\<close> object lives at an address (\<open>cid\<close>) in the store \<open>objects\<close>; payloads
  that do not fit the buffer live on the \<open>heap\<close>. The payload type \<open>T\<close>, a template
  parameter of the source, is a record of the compile-time traits the source asks for and
  of the behaviour of \<open>T\<close>'s copy constructor, move constructor and call operator. The
  values of all payload types are drawn from one type \<open>'v\<close>; \<open>'a\<close> is the argument tuple
  \<open>Args...\<close> and \<open>'r\<close> the result type \<open>R\<close>.

  A payload's state is its value: the call operator, which the source calls through a
  pointer to const, reads it and does not change it, and what a closure captured by value
  is part of it. The \<open>trace\<close> records, in order, every allocation and deallocation and
  every constructor and destructor call the container makes for a payload.
\<close>

type_synonym addr = nat
type_synonym cid = nat

datatype exn = bad_function_call | payload_exception nat

datatype event =
    Allocated addr
  | Deallocated addr
  | Copy_constructed nat
  | Move_constructed nat
  | Destroyed nat

text \<open>
  What a call can do: return a value in a new state, leave by an exception in a new state,
  call \<open>std::terminate\<close> (an exception that escapes a \<open>noexcept\<close> function), or have no
  defined behaviour (an access the language does not define).
\<close>

datatype ('x, 'w) outcome = Normal 'x 'w | Raise exn 'w | Terminate | Undefined

fun bind :: "('x, 'w) outcome \<Rightarrow> ('x \<Rightarrow> 'w \<Rightarrow> ('y, 'w) outcome) \<Rightarrow> ('y, 'w) outcome" where
  "bind (Normal x w) k = k x w"
| "bind (Raise e w) k = Raise e w"
| "bind Terminate k = Terminate"
| "bind Undefined k = Undefined"

text \<open>The body of a \<open>noexcept\<close> function: an exception that would leave it terminates.\<close>

fun noexcept :: "('x, 'w) outcome \<Rightarrow> ('x, 'w) outcome" where
  "noexcept (Raise e w) = Terminate"
| "noexcept r = r"

record ('v, 'a, 'r) callable =
  type_name :: nat
  sizeof :: nat
  alignof :: nat
  is_nothrow_move_assignable :: bool
  is_nothrow_move_constructible :: bool
  copy_ctor :: "'v \<Rightarrow> exn + 'v"
  move_ctor :: "'v \<Rightarrow> exn + 'v \<times> 'v"
  call :: "'v \<Rightarrow> 'a \<Rightarrow> exn + 'r"

text \<open>
  \<open>storage_t\<close> is \<open>std::aligned_storage_t<sizeof(void*), alignof(void*)>\<close>: raw bytes.
  The bytes are either indeterminate (never written, or left behind by a destructor),
  the image of a live object of the payload type with the given name, or a pointer value.
  Assigning one \<open>storage_t\<close> to another copies the bytes, and the copied image counts as
  the object (the source relies on this in \<open>storage = buf\<close> and in \<open>dst = src\<close>); whether
  a constructor or a destructor ran is what the trace tells.
\<close>

datatype 'v storage_t = Indeterminate | Inline nat 'v | Pointer addr

text \<open>
  A block of heap memory obtained by \<open>operator new\<close> and not yet given back: it holds a
  live object of the payload type with the given name, or no live object (memory in which
  no constructor has returned yet, or an object whose destructor has already run).
\<close>

datatype 'v cell = Live nat 'v | Dead

record machine =
  sizeof_void_ptr :: nat
  alignof_void_ptr :: nat

definition sizeof_storage_t :: "machine \<Rightarrow> nat" where
  "sizeof_storage_t M = sizeof_void_ptr M"

definition alignof_storage_t :: "machine \<Rightarrow> nat" where
  "alignof_storage_t M = alignof_void_ptr M"

datatype ('v, 'a, 'r) descriptor_ptr =
    empty_func_descriptor
  | descriptor_of "('v, 'a, 'r) callable"

record ('v, 'a, 'r) func =
  storage :: "'v storage_t"
  desc :: "('v, 'a, 'r) descriptor_ptr"

record ('v, 'a, 'r) world =
  objects :: "cid \<rightharpoonup> ('v, 'a, 'r) func"
  heap :: "addr \<rightharpoonup> 'v cell"
  fresh :: addr
  trace :: "event list"

datatype pointer = nullptr | storage_addr cid | heap_addr addr

record ('v, 'a, 'r) type_descriptor =
  copy :: "'v storage_t \<Rightarrow> 'v storage_t \<Rightarrow> ('v, 'a, 'r) world
             \<Rightarrow> ('v storage_t, ('v, 'a, 'r) world) outcome"
  move :: "'v storage_t \<Rightarrow> 'v storage_t \<Rightarrow> ('v, 'a, 'r) world
             \<Rightarrow> ('v storage_t \<times> 'v storage_t, ('v, 'a, 'r) world) outcome"
  destroy :: "'v storage_t \<Rightarrow> ('v, 'a, 'r) world
             \<Rightarrow> ('v storage_t, ('v, 'a, 'r) world) outcome"
  invoke :: "'v storage_t \<Rightarrow> 'a \<Rightarrow> ('v, 'a, 'r) world
             \<Rightarrow> ('r, ('v, 'a, 'r) world) outcome"

subsection \<open>Constructors, destructors and the heap\<close>

definition log_event :: "event \<Rightarrow> ('v, 'a, 'r) world \<Rightarrow> ('v, 'a, 'r) world" where
  "log_event ev w = w\<lparr>trace := trace w @ [ev]\<rparr>"

text \<open>\<open>T(x)\<close> for an lvalue \<open>x\<close>: the copy constructor, which may throw.\<close>

definition copy_construct ::
  "('v, 'a, 'r) callable \<Rightarrow> 'v \<Rightarrow> ('v, 'a, 'r) world \<Rightarrow> ('v, ('v, 'a, 'r) world) outcome" where
  "copy_construct T v w =
     (case copy_ctor T v of
        Inl e \<Rightarrow> Raise e w
      | Inr v' \<Rightarrow> Normal v' (log_event (Copy_constructed (type_name T)) w))"

text \<open>
  \<open>T(std::move(x))\<close>: the move constructor. It returns the new object and the state it
  leaves in \<open>x\<close>. When \<open>T\<close>'s move constructor is \<open>noexcept\<close>, an exception inside it
  terminates the program.
\<close>

definition move_construct ::
  "('v, 'a, 'r) callable \<Rightarrow> 'v \<Rightarrow> ('v, 'a, 'r) world \<Rightarrow> ('v \<times> 'v, ('v, 'a, 'r) world) outcome" where
  "move_construct T v w =
     (case move_ctor T v of
        Inl e \<Rightarrow> (if is_nothrow_move_constructible T then Terminate else Raise e w)
      | Inr r \<Rightarrow> Normal r (log_event (Move_constructed (type_name T)) w))"

text \<open>
  \<open>operator new\<close> hands out a block at an address it never handed out before; the block
  holds no object yet. The heap is unbounded: \<open>operator new\<close> itself does not fail here.
  \<open>operator delete\<close> gives a block back.
\<close>

definition operator_new :: "('v, 'a, 'r) world \<Rightarrow> ('v, 'a, 'r) world" where
  "operator_new w =
     log_event (Allocated (fresh w))
       (w\<lparr>heap := (heap w)(fresh w \<mapsto> Dead), fresh := Suc (fresh w)\<rparr>)"

definition operator_delete :: "addr \<Rightarrow> ('v, 'a, 'r) world \<Rightarrow> ('v, 'a, 'r) world" where
  "operator_delete p w = log_event (Deallocated p) (w\<lparr>heap := (heap w)(p := None)\<rparr>)"

text \<open>
  The new-expressions \<open>new T(x)\<close> and \<open>new T(std::move(x))\<close>: \<open>operator new\<close>, then the
  constructor in the block obtained. When the constructor throws, the block is given back
  by \<open>operator delete\<close> and the exception leaves the new-expression.
\<close>

definition new_copy ::
  "('v, 'a, 'r) callable \<Rightarrow> 'v \<Rightarrow> ('v, 'a, 'r) world \<Rightarrow> (addr, ('v, 'a, 'r) world) outcome" where
  "new_copy T v w =
     (case copy_construct T v (operator_new w) of
        Normal v' w1 \<Rightarrow>
          Normal (fresh w) (w1\<lparr>heap := (heap w1)(fresh w \<mapsto> Live (type_name T) v')\<rparr>)
      | Raise e w1 \<Rightarrow> Raise e (operator_delete (fresh w) w1)
      | Terminate \<Rightarrow> Terminate
      | Undefined \<Rightarrow> Undefined)"

definition new_move ::
  "('v, 'a, 'r) callable \<Rightarrow> 'v \<Rightarrow> ('v, 'a, 'r) world
     \<Rightarrow> (addr \<times> 'v, ('v, 'a, 'r) world) outcome" where
  "new_move T v w =
     (case move_construct T v (operator_new w) of
        Normal r w1 \<Rightarrow>
          Normal (fresh w, snd r)
            (w1\<lparr>heap := (heap w1)(fresh w \<mapsto> Live (type_name T) (fst r))\<rparr>)
      | Raise e w1 \<Rightarrow> Raise e (operator_delete (fresh w) w1)
      | Terminate \<Rightarrow> Terminate
      | Undefined \<Rightarrow> Undefined)"

text \<open>The object of type \<open>T\<close> that the heap holds at \<open>p\<close>, if there is one.\<close>

definition heap_object :: "('v, 'a, 'r) callable \<Rightarrow> addr \<Rightarrow> ('v, 'a, 'r) world \<Rightarrow> 'v option" where
  "heap_object T p w =
     (case heap w p of
        Some (Live tn v) \<Rightarrow> if tn = type_name T then Some v else None
      | _ \<Rightarrow> None)"

text \<open>\<open>delete p\<close>: destructor, then deallocation. Undefined when no \<open>T\<close> lives at \<open>p\<close>.\<close>

definition delete_object ::
  "('v, 'a, 'r) callable \<Rightarrow> addr \<Rightarrow> ('v, 'a, 'r) world \<Rightarrow> (unit, ('v, 'a, 'r) world) outcome" where
  "delete_object T p w =
     (case heap_object T p w of
        None \<Rightarrow> Undefined
      | Some v \<Rightarrow>
          Normal ()
            (log_event (Deallocated p)
               (log_event (Destroyed (type_name T)) (w\<lparr>heap := (heap w)(p := None)\<rparr>))))"

section \<open>\<open>src/unnamed/part_000\<close>\<close>

subsection \<open>\<open>details\<close>: classification and casts\<close>

definition fits_small :: "machine \<Rightarrow> ('v, 'a, 'r) callable \<Rightarrow> bool" where
  "fits_small M T \<longleftrightarrow>
     sizeof T < sizeof_storage_t M \<and> alignof_storage_t M mod alignof T = 0 \<and>
     is_nothrow_move_assignable T \<and> is_nothrow_move_constructible T"

text \<open>
  \<open>*small_cast<T>(storage)\<close>: the \<open>T\<close> object in the buffer; there is none when the bytes
  are not the image of a live \<open>T\<close>.
\<close>

definition small_cast :: "('v, 'a, 'r) callable \<Rightarrow> 'v storage_t \<Rightarrow> 'v option" where
  "small_cast T s =
     (case s of Inline tn v \<Rightarrow> if tn = type_name T then Some v else None | _ \<Rightarrow> None)"

text \<open>
  \<open>big_cast<T>(storage)\<close>: the bytes read as a \<open>T*\<close>; no pointer value is defined when
  the bytes were not written as a pointer.
\<close>

definition big_cast :: "'v storage_t \<Rightarrow> addr option" where
  "big_cast s = (case s of Pointer p \<Rightarrow> Some p | _ \<Rightarrow> None)"

text \<open>\<open>*cast<T>(storage)\<close>: the object the pointer returned by \<open>cast\<close> designates.\<close>

definition cast ::
  "machine \<Rightarrow> ('v, 'a, 'r) callable \<Rightarrow> 'v storage_t \<Rightarrow> ('v, 'a, 'r) world \<Rightarrow> 'v option" where
  "cast M T s w =
     (if fits_small M T then small_cast T s
      else (case big_cast s of None \<Rightarrow> None | Some p \<Rightarrow> heap_object T p w))"

text \<open>
  The pointer value \<open>cast<T>(storage)\<close> returns for the storage of the object at \<open>this\<close>:
  the address of the buffer itself, or the pointer held in it.
\<close>

definition cast_address ::
  "machine \<Rightarrow> ('v, 'a, 'r) callable \<Rightarrow> cid \<Rightarrow> 'v storage_t \<Rightarrow> pointer option" where
  "cast_address M T this s =
     (if fits_small M T then Some (storage_addr this)
      else map_option heap_addr (big_cast s))"

subsection \<open>\<open>type_descriptor\<close>\<close>

definition get_empty_func_descriptor :: "('v, 'a, 'r) descriptor_ptr" where
  "get_empty_func_descriptor = empty_func_descriptor"

definition get_descriptor :: "('v, 'a, 'r) callable \<Rightarrow> ('v, 'a, 'r) descriptor_ptr" where
  "get_descriptor T = descriptor_of T"

text \<open>The table \<open>result\<close> of \<open>get_empty_func_descriptor\<close>.\<close>

definition empty_result :: "('v, 'a, 'r) type_descriptor" where
  "empty_result =
     \<lparr> copy = (\<lambda>src dst w. Normal dst w),
       move = (\<lambda>src dst w. Normal (src, dst) w),
       destroy = (\<lambda>src w. Normal src w),
       invoke = (\<lambda>src args w. Raise bad_function_call w) \<rparr>"

text \<open>The four lambdas of the table \<open>result\<close> of \<open>get_descriptor<T>\<close>.\<close>

definition copy_T ::
  "machine \<Rightarrow> ('v, 'a, 'r) callable \<Rightarrow> 'v storage_t \<Rightarrow> 'v storage_t \<Rightarrow> ('v, 'a, 'r) world
     \<Rightarrow> ('v storage_t, ('v, 'a, 'r) world) outcome" where
  "copy_T M T src dst w =
     (if fits_small M T then
        (case small_cast T src of
           None \<Rightarrow> Undefined
         | Some v \<Rightarrow>
             bind (copy_construct T v w) (\<lambda>v' w'. Normal (Inline (type_name T) v') w'))
      else
        (case big_cast src of
           None \<Rightarrow> Undefined
         | Some p \<Rightarrow>
             (case heap_object T p w of
                None \<Rightarrow> Undefined
              | Some v \<Rightarrow> bind (new_copy T v w) (\<lambda>ptr w'. Normal (Pointer ptr) w'))))"

definition move_T ::
  "machine \<Rightarrow> ('v, 'a, 'r) callable \<Rightarrow> 'v storage_t \<Rightarrow> 'v storage_t \<Rightarrow> ('v, 'a, 'r) world
     \<Rightarrow> ('v storage_t \<times> 'v storage_t, ('v, 'a, 'r) world) outcome" where
  "move_T M T src dst w =
     (if fits_small M T then
        (case small_cast T src of
           None \<Rightarrow> Undefined
         | Some v \<Rightarrow>
             bind (move_construct T v w) (\<lambda>r w'.
               Normal (Indeterminate, Inline (type_name T) (fst r))
                 (log_event (Destroyed (type_name T)) w')))
      else
        (case big_cast src of
           None \<Rightarrow> Undefined
         | Some p \<Rightarrow> Normal (src, Pointer p) w))"

definition destroy_T ::
  "machine \<Rightarrow> ('v, 'a, 'r) callable \<Rightarrow> 'v storage_t \<Rightarrow> ('v, 'a, 'r) world
     \<Rightarrow> ('v storage_t, ('v, 'a, 'r) world) outcome" where
  "destroy_T M T src w =
     (if fits_small M T then
        (case small_cast T src of
           None \<Rightarrow> Undefined
         | Some v \<Rightarrow> Normal Indeterminate (log_event (Destroyed (type_name T)) w))
      else
        (case big_cast src of
           None \<Rightarrow> Undefined
         | Some p \<Rightarrow> bind (delete_object T p w) (\<lambda>u w'. Normal src w')))"

definition invoke_T ::
  "machine \<Rightarrow> ('v, 'a, 'r) callable \<Rightarrow> 'v storage_t \<Rightarrow> 'a \<Rightarrow> ('v, 'a, 'r) world
     \<Rightarrow> ('r, ('v, 'a, 'r) world) outcome" where
  "invoke_T M T src args w =
     (case cast M T src w of
        None \<Rightarrow> Undefined
      | Some v \<Rightarrow> (case call T v args of Inl e \<Rightarrow> Raise e w | Inr r \<Rightarrow> Normal r w))"

definition result ::
  "machine \<Rightarrow> ('v, 'a, 'r) callable \<Rightarrow> ('v, 'a, 'r) type_descriptor" where
  "result M T =
     \<lparr> copy = copy_T M T, move = move_T M T, destroy = destroy_T M T, invoke = invoke_T M T \<rparr>"

text \<open>\<open>desc->\<close>: the table a descriptor pointer points to.\<close>

fun deref :: "machine \<Rightarrow> ('v, 'a, 'r) descriptor_ptr \<Rightarrow> ('v, 'a, 'r) type_descriptor" where
  "deref M empty_func_descriptor = empty_result"
| "deref M (descriptor_of T) = result M T"

subsection \<open>\<open>function<R(Args...)>\<close>\<close>

text \<open>
  Every member takes the address \<open>this\<close> of the object it works on. A constructor brings
  the object at \<open>this\<close> to life; when it leaves by an exception no object exists there.
  The member \<open>storage\<close> is declared first and starts indeterminate. A table's
  operations take the buffers they are given by reference as values and return the new
  contents: \<open>copy\<close> returns the destination, \<open>move\<close> the source and the destination,
  \<open>destroy\<close> the source. The by-value parameter \<open>val\<close> of \<open>function(T)\<close> belongs to the
  caller: only the move construction out of it is traced. Copy assignment adopts the
  staged object by copying the bytes of \<open>buf\<close> into \<open>storage\<close>.
\<close>

definition put ::
  "cid \<Rightarrow> ('v, 'a, 'r) func \<Rightarrow> ('v, 'a, 'r) world \<Rightarrow> ('v, 'a, 'r) world" where
  "put c f w = w\<lparr>objects := (objects w)(c \<mapsto> f)\<rparr>"

definition function_default ::
  "cid \<Rightarrow> ('v, 'a, 'r) world \<Rightarrow> (unit, ('v, 'a, 'r) world) outcome" where
  "function_default this w =
     Normal () (put this \<lparr>storage = Indeterminate, desc = get_empty_func_descriptor\<rparr> w)"

definition function_copy ::
  "machine \<Rightarrow> cid \<Rightarrow> cid \<Rightarrow> ('v, 'a, 'r) world \<Rightarrow> (unit, ('v, 'a, 'r) world) outcome" where
  "function_copy M this other w =
     (case objects w other of
        None \<Rightarrow> Undefined
      | Some oth \<Rightarrow>
          bind (copy (deref M (desc oth)) (storage oth) Indeterminate w) (\<lambda>dst w'.
            Normal () (put this \<lparr>storage = dst, desc = desc oth\<rparr> w')))"

definition function_move ::
  "machine \<Rightarrow> cid \<Rightarrow> cid \<Rightarrow> ('v, 'a, 'r) world \<Rightarrow> (unit, ('v, 'a, 'r) world) outcome" where
  "function_move M this other w =
     (case objects w other of
        None \<Rightarrow> Undefined
      | Some oth \<Rightarrow>
          bind (move (deref M (desc oth)) (storage oth) Indeterminate
                  (put other (oth\<lparr>desc := get_empty_func_descriptor\<rparr>) w))
            (\<lambda>sd w'.
               Normal ()
                 (put this \<lparr>storage = snd sd, desc = desc oth\<rparr>
                    (put other \<lparr>storage = fst sd, desc = get_empty_func_descriptor\<rparr> w'))))"

definition function_from ::
  "machine \<Rightarrow> cid \<Rightarrow> ('v, 'a, 'r) callable \<Rightarrow> 'v \<Rightarrow> ('v, 'a, 'r) world
     \<Rightarrow> (unit, ('v, 'a, 'r) world) outcome" where
  "function_from M this T val w =
     (if fits_small M T then
        bind (move_construct T val w) (\<lambda>r w'.
          Normal () (put this \<lparr>storage = Inline (type_name T) (fst r), desc = get_descriptor T\<rparr> w'))
      else
        bind (new_move T val w) (\<lambda>ptr w'.
          Normal () (put this \<lparr>storage = Pointer (fst ptr), desc = get_descriptor T\<rparr> w')))"

definition assign_copy ::
  "machine \<Rightarrow> cid \<Rightarrow> cid \<Rightarrow> ('v, 'a, 'r) world \<Rightarrow> (unit, ('v, 'a, 'r) world) outcome" where
  "assign_copy M this other w =
     (if this \<noteq> other then
        (case objects w this of
           None \<Rightarrow> Undefined
         | Some self \<Rightarrow>
             (case objects w other of
                None \<Rightarrow> Undefined
              | Some oth \<Rightarrow>
                  bind (copy (deref M (desc oth)) (storage oth) Indeterminate w) (\<lambda>buf w1.
                    bind (destroy (deref M (desc self)) (storage self) w1) (\<lambda>s w2.
                      Normal () (put this \<lparr>storage = buf, desc = desc oth\<rparr> w2)))))
      else Normal () w)"

definition assign_move ::
  "machine \<Rightarrow> cid \<Rightarrow> cid \<Rightarrow> ('v, 'a, 'r) world \<Rightarrow> (unit, ('v, 'a, 'r) world) outcome" where
  "assign_move M this other w =
     (if this \<noteq> other then
        (case objects w this of
           None \<Rightarrow> Undefined
         | Some self \<Rightarrow>
             (case objects w other of
                None \<Rightarrow> Undefined
              | Some oth \<Rightarrow>
                  noexcept
                    (bind (destroy (deref M (desc self)) (storage self) w) (\<lambda>s w1.
                       bind (move (deref M (desc oth)) (storage oth) s w1) (\<lambda>sd w2.
                         Normal ()
                           (put other \<lparr>storage = fst sd, desc = get_empty_func_descriptor\<rparr>
                              (put this \<lparr>storage = snd sd, desc = desc oth\<rparr> w2)))))))
      else Normal () w)"

definition function_dtor ::
  "machine \<Rightarrow> cid \<Rightarrow> ('v, 'a, 'r) world \<Rightarrow> (unit, ('v, 'a, 'r) world) outcome" where
  "function_dtor M this w =
     (case objects w this of
        None \<Rightarrow> Undefined
      | Some self \<Rightarrow>
          noexcept
            (bind (destroy (deref M (desc self)) (storage self) w) (\<lambda>s w'.
               Normal () (w'\<lparr>objects := (objects w')(this := None)\<rparr>))))"

definition operator_bool :: "('v, 'a, 'r) func \<Rightarrow> bool" where
  "operator_bool f \<longleftrightarrow> get_empty_func_descriptor \<noteq> desc f"

definition operator_call ::
  "machine \<Rightarrow> ('v, 'a, 'r) func \<Rightarrow> 'a \<Rightarrow> ('v, 'a, 'r) world \<Rightarrow> ('r, ('v, 'a, 'r) world) outcome" where
  "operator_call M f args w = invoke (deref M (desc f)) (storage f) args w"

text \<open>\<open>target<T>()\<close> of the object \<open>f\<close> at \<open>this\<close>; \<open>None\<close> when no pointer value is defined.\<close>

definition target ::
  "machine \<Rightarrow> ('v, 'a, 'r) callable \<Rightarrow> cid \<Rightarrow> ('v, 'a, 'r) func \<Rightarrow> pointer option" where
  "target M T this f =
     (if get_descriptor T = desc f then cast_address M T this (storage f)
      else Some nullptr)"

section \<open>\<open>src/function.h\<close>, first draft (lines 1-220)\<close>

text \<open>
  \<open>fits_small\<close>, \<open>small_cast\<close>, \<open>cast\<close> and the \<open>invoke\<close> lambda read as in
  \<open>part_000\<close>; \<open>big_cast\<close> on a non-const buffer returns a reference \<open>T*&\<close>, through
  which a pointer is written into the buffer. The definitions below are the places where
  this draft differs.
\<close>

definition empty_result_hA :: "('v, 'a, 'r) type_descriptor" where
  "empty_result_hA =
     \<lparr> copy = (\<lambda>src dst w. Normal src w),
       move = (\<lambda>src dst w. Normal (src, src) w),
       destroy = (\<lambda>src w. Normal src w),
       invoke = (\<lambda>src args w. Raise bad_function_call w) \<rparr>"

definition copy_T_hA ::
  "machine \<Rightarrow> ('v, 'a, 'r) callable \<Rightarrow> 'v storage_t \<Rightarrow> 'v storage_t \<Rightarrow> ('v, 'a, 'r) world
     \<Rightarrow> ('v storage_t, ('v, 'a, 'r) world) outcome" where
  "copy_T_hA M T src dst w =
     (if fits_small M T then Normal src w
      else
        (case big_cast src of
           None \<Rightarrow> Undefined
         | Some p \<Rightarrow>
             (case heap_object T p w of
                None \<Rightarrow> Undefined
              | Some v \<Rightarrow> bind (new_copy T v w) (\<lambda>ptr w'. Normal (Pointer ptr) w'))))"

definition move_T_hA ::
  "machine \<Rightarrow> ('v, 'a, 'r) callable \<Rightarrow> 'v storage_t \<Rightarrow> 'v storage_t \<Rightarrow> ('v, 'a, 'r) world
     \<Rightarrow> ('v storage_t \<times> 'v storage_t, ('v, 'a, 'r) world) outcome" where
  "move_T_hA M T src dst w =
     (if fits_small M T then Normal (src, src) w
      else
        (case big_cast src of
           None \<Rightarrow> Undefined
         | Some p \<Rightarrow>
             (case heap_object T p w of
                None \<Rightarrow> Undefined
              | Some v \<Rightarrow>
                  (case new_move T v w of
                     Normal r w' \<Rightarrow>
                       Normal (src, Pointer (fst r))
                         (w'\<lparr>heap := (heap w')(p \<mapsto> Live (type_name T) (snd r))\<rparr>)
                   | Raise e w' \<Rightarrow> Normal (dst, src) w'
                   | Terminate \<Rightarrow> Terminate
                   | Undefined \<Rightarrow> Undefined))))"

definition destroy_T_hA ::
  "machine \<Rightarrow> ('v, 'a, 'r) callable \<Rightarrow> 'v storage_t \<Rightarrow> ('v, 'a, 'r) world
     \<Rightarrow> ('v storage_t, ('v, 'a, 'r) world) outcome" where
  "destroy_T_hA M T src w =
     (if fits_small M T then
        (case small_cast T src of
           None \<Rightarrow> Undefined
         | Some v \<Rightarrow> Normal Indeterminate (log_event (Destroyed (type_name T)) w))
      else
        (case big_cast src of
           None \<Rightarrow> Undefined
         | Some p \<Rightarrow>
             (case heap_object T p w of
                None \<Rightarrow> Undefined
              | Some v \<Rightarrow>
                  Normal src
                    (log_event (Destroyed (type_name T)) (w\<lparr>heap := (heap w)(p \<mapsto> Dead)\<rparr>)))))"

definition result_hA ::
  "machine \<Rightarrow> ('v, 'a, 'r) callable \<Rightarrow> ('v, 'a, 'r) type_descriptor" where
  "result_hA M T =
     \<lparr> copy = copy_T_hA M T, move = move_T_hA M T, destroy = destroy_T_hA M T,
       invoke = invoke_T M T \<rparr>"

fun deref_hA :: "machine \<Rightarrow> ('v, 'a, 'r) descriptor_ptr \<Rightarrow> ('v, 'a, 'r) type_descriptor" where
  "deref_hA M empty_func_descriptor = empty_result_hA"
| "deref_hA M (descriptor_of T) = result_hA M T"

definition function_move_hA ::
  "machine \<Rightarrow> cid \<Rightarrow> cid \<Rightarrow> ('v, 'a, 'r) world \<Rightarrow> (unit, ('v, 'a, 'r) world) outcome" where
  "function_move_hA M this other w =
     (case objects w other of
        None \<Rightarrow> Undefined
      | Some oth \<Rightarrow>
          bind (move (deref_hA M (desc oth)) (storage oth) Indeterminate
                  (put other (oth\<lparr>desc := get_empty_func_descriptor\<rparr>) w))
            (\<lambda>sd w'.
               Normal ()
                 (put this \<lparr>storage = snd sd, desc = desc oth\<rparr>
                    (put other \<lparr>storage = fst sd, desc = get_empty_func_descriptor\<rparr> w'))))"

definition function_copy_hA ::
  "machine \<Rightarrow> cid \<Rightarrow> cid \<Rightarrow> ('v, 'a, 'r) world \<Rightarrow> (unit, ('v, 'a, 'r) world) outcome" where
  "function_copy_hA M this other w =
     (case objects w other of
        None \<Rightarrow> Undefined
      | Some oth \<Rightarrow>
          bind (copy (deref_hA M (desc oth)) (storage oth) Indeterminate w) (\<lambda>dst w'.
            Normal () (put this \<lparr>storage = dst, desc = desc oth\<rparr> w')))"

definition function_from_hA ::
  "machine \<Rightarrow> cid \<Rightarrow> ('v, 'a, 'r) callable \<Rightarrow> 'v \<Rightarrow> ('v, 'a, 'r) world
     \<Rightarrow> (unit, ('v, 'a, 'r) world) outcome" where
  "function_from_hA M this T val w =
     (if sizeof T < sizeof_storage_t M \<and> alignof_storage_t M mod alignof T = 0 then
        bind (move_construct T val w) (\<lambda>r w'.
          Normal () (put this \<lparr>storage = Inline (type_name T) (fst r), desc = get_descriptor T\<rparr> w'))
      else
        bind (new_move T val w) (\<lambda>ptr w'.
          Normal () (put this \<lparr>storage = Pointer (fst ptr), desc = get_descriptor T\<rparr> w')))"

text \<open>
  Copy assignment destroys first; the object at \<open>this\<close> already has the new descriptor
  and its destroyed buffer when \<open>copy\<close> runs, and keeps them when \<open>copy\<close> throws.
\<close>

definition assign_copy_hA ::
  "machine \<Rightarrow> cid \<Rightarrow> cid \<Rightarrow> ('v, 'a, 'r) world \<Rightarrow> (unit, ('v, 'a, 'r) world) outcome" where
  "assign_copy_hA M this other w =
     (if this \<noteq> other then
        (case objects w this of
           None \<Rightarrow> Undefined
         | Some self \<Rightarrow>
             (case objects w other of
                None \<Rightarrow> Undefined
              | Some oth \<Rightarrow>
                  bind (destroy (deref_hA M (desc self)) (storage self) w) (\<lambda>s w1.
                    bind (copy (deref_hA M (desc oth)) (storage oth) s
                            (put this \<lparr>storage = s, desc = desc oth\<rparr> w1))
                      (\<lambda>dst w2. Normal () (put this \<lparr>storage = dst, desc = desc oth\<rparr> w2)))))
      else Normal () w)"

definition function_dtor_hA ::
  "machine \<Rightarrow> cid \<Rightarrow> ('v, 'a, 'r) world \<Rightarrow> (unit, ('v, 'a, 'r) world) outcome" where
  "function_dtor_hA M this w =
     (case objects w this of
        None \<Rightarrow> Undefined
      | Some self \<Rightarrow>
          noexcept
            (bind (destroy (deref_hA M (desc self)) (storage self) w) (\<lambda>s w'.
               Normal () (w'\<lparr>objects := (objects w')(this := None)\<rparr>))))"

definition operator_call_hA ::
  "machine \<Rightarrow> ('v, 'a, 'r) func \<Rightarrow> 'a \<Rightarrow> ('v, 'a, 'r) world \<Rightarrow> ('r, ('v, 'a, 'r) world) outcome" where
  "operator_call_hA M f args w = invoke (deref_hA M (desc f)) (storage f) args w"

definition target_hA ::
  "machine \<Rightarrow> ('v, 'a, 'r) callable \<Rightarrow> cid \<Rightarrow> ('v, 'a, 'r) func \<Rightarrow> pointer option" where
  "target_hA M T this f =
     (if operator_bool f \<and> get_descriptor T = desc f then cast_address M T this (storage f)
      else Some nullptr)"

section \<open>\<open>src/function.h\<close>, second draft (lines 220-407)\<close>

text \<open>
  The \<open>copy\<close>, \<open>destroy\<close> and \<open>invoke\<close> lambdas of \<open>get_descriptor<T>\<close> read as in
  \<open>part_000\<close>. The empty table copies the buffer, and the small branch of \<open>move\<close> leaves
  the moved-from object alive in the source.
\<close>

definition empty_result_hB :: "('v, 'a, 'r) type_descriptor" where
  "empty_result_hB =
     \<lparr> copy = (\<lambda>src dst w. Normal src w),
       move = (\<lambda>src dst w. Normal (src, src) w),
       destroy = (\<lambda>src w. Normal src w),
       invoke = (\<lambda>src args w. Raise bad_function_call w) \<rparr>"

definition move_T_hB ::
  "machine \<Rightarrow> ('v, 'a, 'r) callable \<Rightarrow> 'v storage_t \<Rightarrow> 'v storage_t \<Rightarrow> ('v, 'a, 'r) world
     \<Rightarrow> ('v storage_t \<times> 'v storage_t, ('v, 'a, 'r) world) outcome" where
  "move_T_hB M T src dst w =
     (if fits_small M T then
        (case small_cast T src of
           None \<Rightarrow> Undefined
         | Some v \<Rightarrow>
             bind (move_construct T v w) (\<lambda>r w'.
               Normal (Inline (type_name T) (snd r), Inline (type_name T) (fst r)) w'))
      else
        (case big_cast src of
           None \<Rightarrow> Undefined
         | Some p \<Rightarrow> Normal (src, Pointer p) w))"

definition result_hB ::
  "machine \<Rightarrow> ('v, 'a, 'r) callable \<Rightarrow> ('v, 'a, 'r) type_descriptor" where
  "result_hB M T =
     \<lparr> copy = copy_T M T, move = move_T_hB M T, destroy = destroy_T M T,
       invoke = invoke_T M T \<rparr>"

fun deref_hB :: "machine \<Rightarrow> ('v, 'a, 'r) descriptor_ptr \<Rightarrow> ('v, 'a, 'r) type_descriptor" where
  "deref_hB M empty_func_descriptor = empty_result_hB"
| "deref_hB M (descriptor_of T) = result_hB M T"

definition function_move_hB ::
  "machine \<Rightarrow> cid \<Rightarrow> cid \<Rightarrow> ('v, 'a, 'r) world \<Rightarrow> (unit, ('v, 'a, 'r) world) outcome" where
  "function_move_hB M this other w =
     (case objects w other of
        None \<Rightarrow> Undefined
      | Some oth \<Rightarrow>
          bind (move (deref_hB M (desc oth)) (storage oth) Indeterminate
                  (put other (oth\<lparr>desc := get_empty_func_descriptor\<rparr>) w))
            (\<lambda>sd w'.
               Normal ()
                 (put this \<lparr>storage = snd sd, desc = desc oth\<rparr>
                    (put other \<lparr>storage = fst sd, desc = get_empty_func_descriptor\<rparr> w'))))"

definition function_dtor_hB ::
  "machine \<Rightarrow> cid \<Rightarrow> ('v, 'a, 'r) world \<Rightarrow> (unit, ('v, 'a, 'r) world) outcome" where
  "function_dtor_hB M this w =
     (case objects w this of
        None \<Rightarrow> Undefined
      | Some self \<Rightarrow>
          noexcept
            (bind (destroy (deref_hB M (desc self)) (storage self) w) (\<lambda>s w'.
               Normal () (w'\<lparr>objects := (objects w')(this := None)\<rparr>))))"

section \<open>Chains of operations on \<open>part_000\<close>\<close>

text \<open>
  A client's program is a list of operations on \<open>function\<close> objects. An operation is in
  scope when it constructs where no object lives and otherwise names living objects. A
  client may catch an exception and go on, so a chain continues after \<open>Raise\<close>.
\<close>

datatype ('v, 'a, 'r) operation =
    Default_construct cid
  | Construct_from cid "('v, 'a, 'r) callable" 'v
  | Copy_construct cid cid
  | Move_construct cid cid
  | Copy_assign cid cid
  | Move_assign cid cid
  | Destruct cid

fun in_scope :: "('v, 'a, 'r) operation \<Rightarrow> ('v, 'a, 'r) world \<Rightarrow> bool" where
  "in_scope (Default_construct c) w \<longleftrightarrow> objects w c = None"
| "in_scope (Construct_from c T v) w \<longleftrightarrow> objects w c = None"
| "in_scope (Copy_construct c other) w \<longleftrightarrow> objects w c = None \<and> objects w other \<noteq> None"
| "in_scope (Move_construct c other) w \<longleftrightarrow> objects w c = None \<and> objects w other \<noteq> None"
| "in_scope (Copy_assign c other) w \<longleftrightarrow> objects w c \<noteq> None \<and> objects w other \<noteq> None"
| "in_scope (Move_assign c other) w \<longleftrightarrow> objects w c \<noteq> None \<and> objects w other \<noteq> None"
| "in_scope (Destruct c) w \<longleftrightarrow> objects w c \<noteq> None"

fun step ::
  "machine \<Rightarrow> ('v, 'a, 'r) operation \<Rightarrow> ('v, 'a, 'r) world
     \<Rightarrow> (unit, ('v, 'a, 'r) world) outcome" where
  "step M (Default_construct c) w = function_default c w"
| "step M (Construct_from c T v) w = function_from M c T v w"
| "step M (Copy_construct c other) w = function_copy M c other w"
| "step M (Move_construct c other) w = function_move M c other w"
| "step M (Copy_assign c other) w = assign_copy M c other w"
| "step M (Move_assign c other) w = assign_move M c other w"
| "step M (Destruct c) w = function_dtor M c w"

datatype 'w chain_result = Completed 'w | Aborted | Out_of_scope | Broken

fun run ::
  "machine \<Rightarrow> ('v, 'a, 'r) operation list \<Rightarrow> ('v, 'a, 'r) world
     \<Rightarrow> ('v, 'a, 'r) world chain_result" where
  "run M [] w = Completed w"
| "run M (x # xs) w =
     (if in_scope x w then
        (case step M x w of
           Normal u w' \<Rightarrow> run M xs w'
         | Raise e w' \<Rightarrow> run M xs w'
         | Terminate \<Rightarrow> Aborted
         | Undefined \<Rightarrow> Broken)
      else Out_of_scope)"

text \<open>
  The heap block an object owns: the pointer in its buffer when it holds a large type.
\<close>

definition block :: "machine \<Rightarrow> ('v, 'a, 'r) func \<Rightarrow> addr option" where
  "block M f =
     (case desc f of
        empty_func_descriptor \<Rightarrow> None
      | descriptor_of T \<Rightarrow> if fits_small M T then None else big_cast (storage f))"

definition owned :: "machine \<Rightarrow> ('v, 'a, 'r) world \<Rightarrow> cid \<Rightarrow> addr option" where
  "owned M w c = (case objects w c of None \<Rightarrow> None | Some f \<Rightarrow> block M f)"

fun allocations :: "event list \<Rightarrow> addr list" where
  "allocations [] = []"
| "allocations (Allocated a # es) = a # allocations es"
| "allocations (e # es) = allocations es"

fun deallocations :: "event list \<Rightarrow> addr list" where
  "deallocations [] = []"
| "deallocations (Deallocated a # es) = a # deallocations es"
| "deallocations (e # es) = deallocations es"

section \<open>Observations used in the statements\<close>

text \<open>What a caller sees of a call: its value or exception, without the state.\<close>

fun forget :: "('x, 'w) outcome \<Rightarrow> ('x, unit) outcome" where
  "forget (Normal x w) = Normal x ()"
| "forget (Raise e w) = Raise e ()"
| "forget Terminate = Terminate"
| "forget Undefined = Undefined"

text \<open>
  The buffer agrees with the descriptor: an object that holds \<open>T\<close> has, where
  \<open>cast<T>\<close> looks for it, a live \<open>T\<close> (in the buffer when \<open>T\<close> is small, on the heap
  behind the buffer's pointer when it is large).
\<close>

definition well_formed :: "machine \<Rightarrow> ('v, 'a, 'r) world \<Rightarrow> ('v, 'a, 'r) func \<Rightarrow> bool" where
  "well_formed M w f \<longleftrightarrow>
     (case desc f of
        empty_func_descriptor \<Rightarrow> True
      | descriptor_of T \<Rightarrow> cast M T (storage f) w \<noteq> None)"

text \<open>The live object a pointer designates, with the name of its type.\<close>

definition pointee :: "pointer \<Rightarrow> ('v, 'a, 'r) world \<Rightarrow> (nat \<times> 'v) option" where
  "pointee p w =
     (case p of
        nullptr \<Rightarrow> None
      | storage_addr c \<Rightarrow>
          (case objects w c of
             None \<Rightarrow> None
           | Some f \<Rightarrow> (case storage f of Inline tn v \<Rightarrow> Some (tn, v) | _ \<Rightarrow> None))
      | heap_addr a \<Rightarrow> (case heap w a of Some (Live tn v) \<Rightarrow> Some (tn, v) | _ \<Rightarrow> None))"

text \<open>
  A client's write \<open>*p = v\<close> through a pointer obtained from \<open>target<T>()\<close>: the object
  designated by \<open>p\<close> takes the value \<open>v\<close>.
\<close>

definition assign_through ::
  "pointer \<Rightarrow> 'v \<Rightarrow> ('v, 'a, 'r) world \<Rightarrow> ('v, 'a, 'r) world" where
  "assign_through p v w =
     (case p of
        nullptr \<Rightarrow> w
      | storage_addr c \<Rightarrow>
          (case objects w c of
             None \<Rightarrow> w
           | Some f \<Rightarrow>
               (case storage f of
                  Inline tn u \<Rightarrow> put c (f\<lparr>storage := Inline tn v\<rparr>) w
                | _ \<Rightarrow> w))
      | heap_addr a \<Rightarrow>
          (case heap w a of
             Some (Live tn u) \<Rightarrow> w\<lparr>heap := (heap w)(a \<mapsto> Live tn v)\<rparr>
           | _ \<Rightarrow> w))"

text \<open>Calling the object that lives at an address.\<close>

definition call_at ::
  "machine \<Rightarrow> cid \<Rightarrow> 'a \<Rightarrow> ('v, 'a, 'r) world \<Rightarrow> ('r, unit) outcome" where
  "call_at M c args w =
     (case objects w c of
        None \<Rightarrow> Undefined
      | Some f \<Rightarrow> forget (operator_call M f args w))"

definition call_at_hA ::
  "machine \<Rightarrow> cid \<Rightarrow> 'a \<Rightarrow> ('v, 'a, 'r) world \<Rightarrow> ('r, unit) outcome" where
  "call_at_hA M c args w =
     (case objects w c of
        None \<Rightarrow> Undefined
      | Some f \<Rightarrow> forget (operator_call_hA M f args w))"

text \<open>
  The classification in the words of the specification: the size is strictly less than
  the slot's capacity, the slot's alignment is a multiple of the type's alignment, and
  move construction and move assignment cannot raise.
\<close>

definition classified_small :: "machine \<Rightarrow> ('v, 'a, 'r) callable \<Rightarrow> bool" where
  "classified_small M T \<longleftrightarrow>
     sizeof T < sizeof_void_ptr M \<and> alignof T dvd alignof_void_ptr M \<and>
     is_nothrow_move_constructible T \<and> is_nothrow_move_assignable T"

text \<open>What a caller sees when a \<open>T\<close> object with the value \<open>v\<close> is called.\<close>

definition answer :: "('v, 'a, 'r) callable \<Rightarrow> 'v \<Rightarrow> 'a \<Rightarrow> ('r, unit) outcome" where
  "answer T v args = (case call T v args of Inl e \<Rightarrow> Raise e () | Inr r \<Rightarrow> Normal r ())"

text \<open>
  A payload whose move constructor behaves as a move: it returns, and the new object
  answers calls as the original did.
\<close>

definition move_keeps_call :: "('v, 'a, 'r) callable \<Rightarrow> 'v \<Rightarrow> bool" where
  "move_keeps_call T v \<longleftrightarrow>
     (case move_ctor T v of Inl e \<Rightarrow> False | Inr r \<Rightarrow> call T (fst r) = call T v)"

text \<open>
  Events that bring a value into being (memory obtained, a constructor run) and events
  that end one (a destructor run, memory given back).
\<close>

fun is_acquire :: "event \<Rightarrow> bool" where
  "is_acquire (Allocated a) = True"
| "is_acquire (Copy_constructed n) = True"
| "is_acquire (Move_constructed n) = True"
| "is_acquire e = False"

fun is_release :: "event \<Rightarrow> bool" where
  "is_release (Destroyed n) = True"
| "is_release (Deallocated a) = True"
| "is_release e = False"

text \<open>
  Exactly-once ownership: every object's buffer agrees with its descriptor; no heap block
  is owned by two objects; every heap block is owned by a living object; and the trace
  accounts for the heap: no address was allocated twice or deallocated twice, only
  allocated addresses were deallocated, and the blocks still allocated are those
  allocated and not yet deallocated.
\<close>

definition exactly_once :: "machine \<Rightarrow> ('v, 'a, 'r) world \<Rightarrow> bool" where
  "exactly_once M w \<longleftrightarrow>
     (\<forall>c f. objects w c = Some f \<longrightarrow> well_formed M w f) \<and>
     (\<forall>c c' p. owned M w c = Some p \<longrightarrow> owned M w c' = Some p \<longrightarrow> c = c') \<and>
     (\<forall>p. heap w p \<noteq> None \<longrightarrow> (\<exists>c. owned M w c = Some p)) \<and>
     distinct (allocations (trace w)) \<and>
     distinct (deallocations (trace w)) \<and>
     set (deallocations (trace w)) \<subseteq> set (allocations (trace w)) \<and>
     dom (heap w) = set (allocations (trace w)) - set (deallocations (trace w)) \<and>
     (\<forall>p \<in> set (allocations (trace w)). p < fresh w)"

text \<open>
  The state a new-expression leaves when its constructor throws: the block at the next
  address was obtained and given back, and nothing else changed.
\<close>

definition failed_new :: "('v, 'a, 'r) world \<Rightarrow> ('v, 'a, 'r) world" where
  "failed_new w =
     w\<lparr>heap := (heap w)(fresh w := None), fresh := Suc (fresh w),
       trace := trace w @ [Allocated (fresh w), Deallocated (fresh w)]\<rparr>"

text \<open>
  What one operation may do to a state that satisfies the invariant: return or raise in a
  state that satisfies it (a raise leaves the objects and the heap as they were), or
  terminate the program; never an undefined access.
\<close>

definition preserves ::
  "machine \<Rightarrow> ('v, 'a, 'r) world \<Rightarrow> (unit, ('v, 'a, 'r) world) outcome \<Rightarrow> bool" where
  "preserves M w r \<longleftrightarrow>
     (case r of
        Normal u w' \<Rightarrow> exactly_once M w'
      | Raise e w' \<Rightarrow> exactly_once M w' \<and> objects w' = objects w \<and> heap w' = heap w
      | Terminate \<Rightarrow> True
      | Undefined \<Rightarrow> False)"

text \<open>
  The payload held by an object moves faithfully when it is small: its \<open>noexcept\<close> move
  constructor returns, and the new object answers calls as it does.
\<close>

definition moves_faithfully :: "machine \<Rightarrow> ('v, 'a, 'r) func \<Rightarrow> bool" where
  "moves_faithfully M f \<longleftrightarrow>
     (case desc f of
        empty_func_descriptor \<Rightarrow> True
      | descriptor_of T \<Rightarrow>
          (case small_cast T (storage f) of
             None \<Rightarrow> True
           | Some v \<Rightarrow> \<not> fits_small M T \<or> move_keeps_call T v))"

section \<open>Example machine, payload types and states\<close>

definition lp64 :: machine where
  "lp64 = \<lparr>sizeof_void_ptr = 8, alignof_void_ptr = 8\<rparr>"

text \<open>
  A callable of 4 bytes that adds the \<open>int\<close> it holds to its argument. Its moves are
  \<open>noexcept\<close>, and its move constructor leaves 0 in the object it moved from.
\<close>

definition adder :: "(int, int, int) callable" where
  "adder =
     \<lparr> type_name = 1, sizeof = 4, alignof = 4,
       is_nothrow_move_assignable = True, is_nothrow_move_constructible = True,
       copy_ctor = (\<lambda>v. Inr v), move_ctor = (\<lambda>v. Inr (v, 0)),
       call = (\<lambda>v x. Inr (v + x)) \<rparr>"

text \<open>The same callable padded to 16 bytes: it does not fit the buffer.\<close>

definition big_adder :: "(int, int, int) callable" where
  "big_adder =
     \<lparr> type_name = 2, sizeof = 16, alignof = 8,
       is_nothrow_move_assignable = True, is_nothrow_move_constructible = True,
       copy_ctor = (\<lambda>v. Inr v), move_ctor = (\<lambda>v. Inr (v, 0)),
       call = (\<lambda>v x. Inr (v + x)) \<rparr>"

text \<open>A 16-byte callable whose copy constructor throws.\<close>

definition fragile :: "(int, int, int) callable" where
  "fragile =
     \<lparr> type_name = 3, sizeof = 16, alignof = 8,
       is_nothrow_move_assignable = True, is_nothrow_move_constructible = True,
       copy_ctor = (\<lambda>v. Inl (payload_exception 7)), move_ctor = (\<lambda>v. Inr (v, 0)),
       call = (\<lambda>v x. Inr (v + x)) \<rparr>"

text \<open>A 4-byte callable whose move constructor is not \<open>noexcept\<close>.\<close>

definition wary :: "(int, int, int) callable" where
  "wary =
     \<lparr> type_name = 4, sizeof = 4, alignof = 4,
       is_nothrow_move_assignable = False, is_nothrow_move_constructible = False,
       copy_ctor = (\<lambda>v. Inr v), move_ctor = (\<lambda>v. Inr (v, 0)),
       call = (\<lambda>v x. Inr (v + x)) \<rparr>"

text \<open>A 4-byte callable with \<open>noexcept\<close> moves whose copy constructor throws.\<close>

definition brittle :: "(int, int, int) callable" where
  "brittle =
     \<lparr> type_name = 5, sizeof = 4, alignof = 4,
       is_nothrow_move_assignable = True, is_nothrow_move_constructible = True,
       copy_ctor = (\<lambda>v. Inl (payload_exception 7)), move_ctor = (\<lambda>v. Inr (v, 0)),
       call = (\<lambda>v x. Inr (v + x)) \<rparr>"

definition empty_world :: "(int, int, int) world" where
  "empty_world = \<lparr>objects = Map.empty, heap = Map.empty, fresh = 0, trace = []\<rparr>"

text \<open>
  The state after \<open>function f(adder{5})\<close> at address 0 in the empty state: the \<open>adder\<close> is
  held inline.
\<close>

definition small_world :: "(int, int, int) world" where
  "small_world =
     \<lparr> objects = [0 \<mapsto> \<lparr>storage = Inline 1 5, desc = descriptor_of adder\<rparr>],
       heap = Map.empty, fresh = 0, trace = [Move_constructed 1] \<rparr>"

text \<open>
  The state after \<open>function f(big_adder{5})\<close> at address 0 in the empty state: the
  \<open>big_adder\<close> is held on the heap at 0.
\<close>

definition big_world :: "(int, int, int) world" where
  "big_world =
     \<lparr> objects = [0 \<mapsto> \<lparr>storage = Pointer 0, desc = descriptor_of big_adder\<rparr>],
       heap = [0 \<mapsto> Live 2 5], fresh = 1, trace = [Allocated 0, Move_constructed 2] \<rparr>"

text \<open>
  The state after \<open>function g(fragile{9})\<close> at address 1 in \<open>small_world\<close>: an \<open>adder\<close>
  inline at address 0 and a \<open>fragile\<close> callable, on the heap at 0, held by the object at
  address 1.
\<close>

definition fragile_world :: "(int, int, int) world" where
  "fragile_world =
     \<lparr> objects = [0 \<mapsto> \<lparr>storage = Inline 1 5, desc = descriptor_of adder\<rparr>,
                  1 \<mapsto> \<lparr>storage = Pointer 0, desc = descriptor_of fragile\<rparr>],
       heap = [0 \<mapsto> Live 3 9], fresh = 1,
       trace = [Move_constructed 1, Allocated 0, Move_constructed 3] \<rparr>"

text \<open>
  The state after \<open>function f(brittle{5})\<close> at address 0 in the empty state: the
  \<open>brittle\<close> callable is held inline.
\<close>

definition brittle_world :: "(int, int, int) world" where
  "brittle_world =
     \<lparr> objects = [0 \<mapsto> \<lparr>storage = Inline 5 5, desc = descriptor_of brittle\<rparr>],
       heap = Map.empty, fresh = 0, trace = [Move_constructed 5] \<rparr>"

text \<open>
  A client's chain from the empty state: a large closure is constructed, copied, moved,
  assigned over by copy and by move and to itself, a small closure is moved over a large
  one, and every object is destroyed.
\<close>

definition chain :: "(int, int, int) operation list" where
  "chain =
     [Construct_from 0 big_adder 5, Copy_construct 1 0, Move_construct 2 0,
      Copy_assign 0 1, Move_assign 1 2, Copy_assign 2 2, Construct_from 3 adder 7,
      Move_assign 0 3, Destruct 0, Destruct 1, Destruct 2, Destruct 3]"

section \<open>Evaluation rules\<close>

lemmas table_defs =
  empty_result_def result_def empty_result_hA_def result_hA_def empty_result_hB_def
  result_hB_def get_empty_func_descriptor_def get_descriptor_def

lemmas example_defs =
  lp64_def adder_def big_adder_def fragile_def wary_def brittle_def empty_world_def
  small_world_def big_world_def fragile_world_def brittle_world_def sizeof_storage_t_def
  alignof_storage_t_def

lemmas member_defs_hA =
  function_from_hA_def function_move_hA_def function_copy_hA_def assign_copy_hA_def
  function_dtor_hA_def operator_call_hA_def call_at_hA_def target_hA_def
  copy_T_hA_def move_T_hA_def destroy_T_hA_def

lemmas member_defs =
  function_from_def function_move_def function_copy_def assign_copy_def assign_move_def
  function_dtor_def operator_call_def call_at_def target_def
  copy_T_def move_T_def destroy_T_def invoke_T_def

lemma new_copy_eq:
  "new_copy T v w =
     (case copy_ctor T v of
        Inl e \<Rightarrow> Raise e (failed_new w)
      | Inr v' \<Rightarrow>
          Normal (fresh w)
            (w\<lparr>heap := (heap w)(fresh w \<mapsto> Live (type_name T) v'),
               fresh := Suc (fresh w),
               trace := trace w @ [Allocated (fresh w), Copy_constructed (type_name T)]\<rparr>))"
  by (simp add: new_copy_def copy_construct_def operator_new_def operator_delete_def
      failed_new_def log_event_def split: sum.splits)

lemma new_move_eq:
  "new_move T v w =
     (case move_ctor T v of
        Inl e \<Rightarrow> (if is_nothrow_move_constructible T then Terminate else Raise e (failed_new w))
      | Inr r \<Rightarrow>
          Normal (fresh w, snd r)
            (w\<lparr>heap := (heap w)(fresh w \<mapsto> Live (type_name T) (fst r)),
               fresh := Suc (fresh w),
               trace := trace w @ [Allocated (fresh w), Move_constructed (type_name T)]\<rparr>))"
  by (simp add: new_move_def move_construct_def operator_new_def operator_delete_def
      failed_new_def log_event_def split: sum.splits)

lemmas memory_defs =
  fits_small_def small_cast_def big_cast_def cast_def cast_address_def heap_object_def
  delete_object_def new_copy_eq new_move_eq failed_new_def copy_construct_def
  move_construct_def log_event_def put_def

section \<open>Effects of the operations of a table of \<open>part_000\<close>\<close>

lemma allocations_append: "allocations (xs @ ys) = allocations xs @ allocations ys"
  by (induction xs rule: allocations.induct) auto

lemma deallocations_append: "deallocations (xs @ ys) = deallocations xs @ deallocations ys"
  by (induction xs rule: deallocations.induct) auto

lemma acquire_no_deallocations: "list_all is_acquire es \<Longrightarrow> deallocations es = []"
  by (induction es rule: deallocations.induct) auto

lemma release_no_allocations: "list_all is_release es \<Longrightarrow> allocations es = []"
  by (induction es rule: allocations.induct) auto

lemma well_formed_frame:
  assumes "well_formed M w f" and "\<And>p. block M f = Some p \<Longrightarrow> heap w' p = heap w p"
  shows "well_formed M w' f"
  using assms
  by (auto simp add: well_formed_def block_def cast_def heap_object_def big_cast_def
      split: descriptor_ptr.splits storage_t.splits option.splits if_splits)

lemma well_formed_block:
  assumes "well_formed M w f" and "block M f = Some p"
  shows "\<exists>T v. desc f = descriptor_of T \<and> \<not> fits_small M T \<and> storage f = Pointer p \<and>
           heap w p = Some (Live (type_name T) v)"
  using assms
  by (auto simp add: well_formed_def block_def cast_def heap_object_def big_cast_def
      split: descriptor_ptr.splits storage_t.splits option.splits if_splits cell.splits)

lemma well_formed_cases:
  assumes "well_formed M w f" and "desc f = descriptor_of T"
  shows "(fits_small M T \<and> (\<exists>v. storage f = Inline (type_name T) v)) \<or>
         (\<not> fits_small M T \<and>
            (\<exists>p v. storage f = Pointer p \<and> heap w p = Some (Live (type_name T) v)))"
  using assms
  by (auto simp add: well_formed_def cast_def small_cast_def heap_object_def big_cast_def
      split: storage_t.splits option.splits if_splits cell.splits)

lemma copy_T_small:
  assumes "fits_small M T"
  shows "copy_T M T (Inline (type_name T) v) dst w =
           (case copy_ctor T v of
              Inl e \<Rightarrow> Raise e w
            | Inr v' \<Rightarrow>
                Normal (Inline (type_name T) v')
                  (w\<lparr>trace := trace w @ [Copy_constructed (type_name T)]\<rparr>))"
  using assms
  by (simp add: copy_T_def small_cast_def copy_construct_def log_event_def split: sum.splits)

lemma copy_T_large:
  assumes "\<not> fits_small M T" and "heap w p = Some (Live (type_name T) v)"
  shows "copy_T M T (Pointer p) dst w =
           (case copy_ctor T v of
              Inl e \<Rightarrow> Raise e (failed_new w)
            | Inr v' \<Rightarrow>
                Normal (Pointer (fresh w))
                  (w\<lparr>heap := (heap w)(fresh w \<mapsto> Live (type_name T) v'),
                     fresh := Suc (fresh w),
                     trace := trace w @ [Allocated (fresh w), Copy_constructed (type_name T)]\<rparr>))"
  using assms
  by (simp add: copy_T_def big_cast_def heap_object_def new_copy_eq split: sum.splits)

lemma move_T_small:
  assumes "fits_small M T"
  shows "move_T M T (Inline (type_name T) v) dst w =
           (case move_ctor T v of
              Inl e \<Rightarrow> Terminate
            | Inr r \<Rightarrow>
                Normal (Indeterminate, Inline (type_name T) (fst r))
                  (w\<lparr>trace := trace w @ [Move_constructed (type_name T), Destroyed (type_name T)]\<rparr>))"
  using assms
  by (simp add: move_T_def small_cast_def move_construct_def log_event_def fits_small_def
      split: sum.splits)

lemma move_T_large:
  assumes "\<not> fits_small M T"
  shows "move_T M T (Pointer p) dst w = Normal (Pointer p, Pointer p) w"
  using assms by (simp add: move_T_def big_cast_def)

lemma destroy_T_small:
  assumes "fits_small M T"
  shows "destroy_T M T (Inline (type_name T) v) w =
           Normal Indeterminate (w\<lparr>trace := trace w @ [Destroyed (type_name T)]\<rparr>)"
  using assms by (simp add: destroy_T_def small_cast_def log_event_def)

lemma destroy_T_large:
  assumes "\<not> fits_small M T" and "heap w p = Some (Live (type_name T) v)"
  shows "destroy_T M T (Pointer p) w =
           Normal (Pointer p)
             (w\<lparr>heap := (heap w)(p := None),
                trace := trace w @ [Destroyed (type_name T), Deallocated p]\<rparr>)"
  using assms
  by (simp add: destroy_T_def big_cast_def heap_object_def delete_object_def log_event_def)

lemma block_small: "fits_small M T \<Longrightarrow> block M \<lparr>storage = s, desc = descriptor_of T\<rparr> = None"
  by (simp add: block_def)

lemma block_large:
  "\<not> fits_small M T \<Longrightarrow> block M \<lparr>storage = Pointer p, desc = descriptor_of T\<rparr> = Some p"
  by (simp add: block_def big_cast_def)

lemma well_formed_small:
  "fits_small M T \<Longrightarrow> well_formed M w \<lparr>storage = Inline (type_name T) v, desc = descriptor_of T\<rparr>"
  by (simp add: well_formed_def cast_def small_cast_def)

lemma well_formed_large:
  "\<not> fits_small M T \<Longrightarrow> heap w p = Some (Live (type_name T) v) \<Longrightarrow>
     well_formed M w \<lparr>storage = Pointer p, desc = descriptor_of T\<rparr>"
  by (simp add: well_formed_def cast_def big_cast_def heap_object_def)

lemma destroy_effect:
  assumes "well_formed M w f"
  shows "\<exists>s' w' ds. destroy (deref M (desc f)) (storage f) w = Normal s' w' \<and>
           objects w' = objects w \<and> fresh w' = fresh w \<and>
           trace w' = trace w @ ds \<and> list_all is_release ds \<and>
           (case block M f of
              None \<Rightarrow> heap w' = heap w \<and> deallocations ds = []
            | Some p \<Rightarrow> heap w' = (heap w)(p := None) \<and> deallocations ds = [p])"
proof (cases "desc f")
  case empty_func_descriptor
  then show ?thesis
    by (simp add: table_defs block_def)
next
  case (descriptor_of T)
  from well_formed_cases [OF assms this] show ?thesis
  proof (elim disjE conjE exE)
    fix v assume "fits_small M T" "storage f = Inline (type_name T) v"
    with descriptor_of show ?thesis
      by (simp add: result_def destroy_T_small block_def)
  next
    fix p v
    assume "\<not> fits_small M T" "storage f = Pointer p" "heap w p = Some (Live (type_name T) v)"
    with descriptor_of show ?thesis
      by (simp add: result_def destroy_T_large block_def big_cast_def)
  qed
qed

lemma copy_effect:
  assumes "well_formed M w f"
  shows "(\<exists>e w'. copy (deref M (desc f)) (storage f) dst w = Raise e w' \<and>
            w' \<in> {w, failed_new w}) \<or>
         (\<exists>buf w' cs. copy (deref M (desc f)) (storage f) dst w = Normal buf w' \<and>
            objects w' = objects w \<and> trace w' = trace w @ cs \<and> list_all is_acquire cs \<and>
            well_formed M w' \<lparr>storage = buf, desc = desc f\<rparr> \<and>
            (case block M \<lparr>storage = buf, desc = desc f\<rparr> of
               None \<Rightarrow> heap w' = heap w \<and> fresh w' = fresh w \<and> allocations cs = []
             | Some p \<Rightarrow> p = fresh w \<and> (\<exists>x. heap w' = (heap w)(p \<mapsto> x)) \<and>
                 fresh w' = Suc (fresh w) \<and> allocations cs = [p]))"
proof (cases "desc f")
  case empty_func_descriptor
  then show ?thesis
    by (simp add: table_defs block_def well_formed_def)
next
  case (descriptor_of T)
  from well_formed_cases [OF assms this] show ?thesis
  proof (elim disjE conjE exE)
    fix v assume "fits_small M T" "storage f = Inline (type_name T) v"
    with descriptor_of show ?thesis
      by (cases "copy_ctor T v")
        (simp_all add: result_def copy_T_small block_small well_formed_small)
  next
    fix p v
    assume "\<not> fits_small M T" "storage f = Pointer p" "heap w p = Some (Live (type_name T) v)"
    with descriptor_of show ?thesis
      by (cases "copy_ctor T v")
        (auto simp add: result_def copy_T_large block_large well_formed_large)
  qed
qed

lemma move_effect:
  assumes "well_formed M w f"
  shows "move (deref M (desc f)) (storage f) dst w = Terminate \<or>
         (\<exists>s' d' w' ms. move (deref M (desc f)) (storage f) dst w = Normal (s', d') w' \<and>
            objects w' = objects w \<and> heap w' = heap w \<and> fresh w' = fresh w \<and>
            trace w' = trace w @ ms \<and> allocations ms = [] \<and> deallocations ms = [] \<and>
            well_formed M w' \<lparr>storage = d', desc = desc f\<rparr> \<and>
            block M \<lparr>storage = d', desc = desc f\<rparr> = block M f)"
proof (cases "desc f")
  case empty_func_descriptor
  then show ?thesis
    by (simp add: table_defs block_def well_formed_def)
next
  case (descriptor_of T)
  from well_formed_cases [OF assms this] show ?thesis
  proof (elim disjE conjE exE)
    fix v assume "fits_small M T" "storage f = Inline (type_name T) v"
    with descriptor_of show ?thesis
      by (cases "move_ctor T v")
        (simp_all add: result_def move_T_small block_def well_formed_small)
  next
    fix p v
    assume "\<not> fits_small M T" "storage f = Pointer p" "heap w p = Some (Live (type_name T) v)"
    with descriptor_of show ?thesis
      by (simp add: result_def move_T_large block_def big_cast_def well_formed_large)
  qed
qed

lemma exactly_once_fresh: "exactly_once M w \<Longrightarrow> heap w (fresh w) = None"
  unfolding exactly_once_def by (metis DiffD1 domIff less_irrefl_nat)

lemma exactly_once_well_formed:
  "exactly_once M w \<Longrightarrow> objects w c = Some f \<Longrightarrow> well_formed M w f"
  unfolding exactly_once_def by blast

lemma exactly_once_block_live:
  "exactly_once M w \<Longrightarrow> objects w c = Some f \<Longrightarrow> block M f = Some p \<Longrightarrow> heap w p \<noteq> None"
  using well_formed_block [of M w f p] exactly_once_well_formed [of M w c f] by auto

lemma exactly_once_big_world: "exactly_once lp64 big_world"
  by (auto simp add: exactly_once_def owned_def block_def well_formed_def memory_defs
      example_defs split: if_splits)

lemma exactly_once_fragile_world: "exactly_once lp64 fragile_world"
  by (auto simp add: exactly_once_def owned_def block_def well_formed_def memory_defs
      example_defs split: if_splits)

lemma copy_raises_unchanged:
  "copy (deref M d) s dst w = Raise e w' \<Longrightarrow> w' = w \<or> w' = failed_new w"
  by (cases d)
    (auto simp add: table_defs copy_T_def copy_construct_def new_copy_eq
      split: if_splits option.splits sum.splits)

lemma failed_new_frame:
  "objects (failed_new w) = objects w" "fresh (failed_new w) = Suc (fresh w)"
  "trace (failed_new w) = trace w @ [Allocated (fresh w), Deallocated (fresh w)]"
  "heap w (fresh w) = None \<Longrightarrow> heap (failed_new w) = heap w"
  by (simp_all add: failed_new_def fun_upd_idem)

lemma destroy_never_raises:
  "destroy (deref M d) s w \<noteq> Raise e w'"
  by (cases d)
    (auto simp add: table_defs destroy_T_def delete_object_def
      split: if_splits option.splits)

section \<open>Calls depend on the object's own buffer and block only\<close>

lemma operator_call_frame:
  assumes "\<And>p. block M f = Some p \<Longrightarrow> heap w' p = heap w p"
  shows "forget (operator_call M f args w') = forget (operator_call M f args w)"
proof (cases "desc f")
  case empty_func_descriptor
  then show ?thesis by (simp add: operator_call_def table_defs)
next
  case (descriptor_of T)
  show ?thesis
  proof (cases "fits_small M T")
    case True
    with descriptor_of show ?thesis
      by (simp add: operator_call_def result_def invoke_T_def cast_def
          split: option.splits sum.splits)
  next
    case False
    show ?thesis
    proof (cases "big_cast (storage f)")
      case None
      with False descriptor_of show ?thesis
        by (simp add: operator_call_def result_def invoke_T_def cast_def)
    next
      case (Some p)
      with False descriptor_of have "block M f = Some p" by (simp add: block_def)
      from assms [OF this] Some False descriptor_of show ?thesis
        by (simp add: operator_call_def result_def invoke_T_def cast_def heap_object_def
            split: option.splits sum.splits cell.splits)
    qed
  qed
qed

lemma call_at_frame:
  assumes "objects w' c = objects w c"
    and "\<And>p. owned M w c = Some p \<Longrightarrow> heap w' p = heap w p"
  shows "call_at M c args w' = call_at M c args w"
proof (cases "objects w c")
  case None
  with assms show ?thesis by (simp add: call_at_def)
next
  case (Some f)
  have "forget (operator_call M f args w') = forget (operator_call M f args w)"
    using assms(2) Some by (intro operator_call_frame) (simp add: owned_def)
  with Some assms(1) show ?thesis by (simp add: call_at_def)
qed

section \<open>The empty state\<close>

text \<open>
  C6. A default-constructed container is in the Empty state: the constructor returns
  normally, the object it made answers the boolean query with false, and invoking it
  raises \<open>bad_function_call\<close> for all arguments and leaves the state as it was. The
  constructor touches neither the heap nor the trace nor any other object.
\<close>

theorem default_constructed_is_empty:
  "\<exists>w'. function_default this w = Normal () w' \<and>
     (\<exists>f. objects w' this = Some f \<and> \<not> operator_bool f \<and>
        (\<forall>args w''. operator_call M f args w'' = Raise bad_function_call w'')) \<and>
     heap w' = heap w \<and> trace w' = trace w \<and>
     objects w' = (objects w)(this \<mapsto> the (objects w' this))"
  by (simp add: function_default_def put_def operator_bool_def operator_call_def table_defs)

theorem default_constructed_is_empty_witness:
  "\<exists>w'. function_default 0 empty_world = Normal () w' \<and>
     (\<exists>f. objects w' 0 = Some f \<and> \<not> operator_bool f \<and>
        (\<forall>args w''. operator_call lp64 f args w'' = Raise bad_function_call w'')) \<and>
     heap w' = heap empty_world \<and> trace w' = trace empty_world \<and>
     objects w' = (objects empty_world)(0 \<mapsto> the (objects w' 0))"
  using default_constructed_is_empty [of 0 empty_world lp64] .

text \<open>
  C9, as amended. The empty descriptor is one pointer value, the one every empty
  container holds (the boolean query is false exactly for it), in each of the three
  drafts. Its \<open>destroy\<close> changes nothing and its \<open>invoke\<close> raises \<open>bad_function_call\<close> for
  every buffer, argument list and state. Its \<open>copy\<close> and \<open>move\<close> never change the source
  buffer or the state; in \<open>part_000\<close> they leave the destination buffer as it was, and in
  both drafts of \<open>function.h\<close> they overwrite the destination buffer with the bytes of the
  source buffer (\<open>dst = src\<close>).
\<close>

theorem empty_descriptor_operations:
  "deref M get_empty_func_descriptor = empty_result \<and>
   deref_hA M get_empty_func_descriptor = empty_result_hA \<and>
   deref_hB M get_empty_func_descriptor = empty_result_hB \<and>
   (\<not> operator_bool f \<longleftrightarrow> desc f = get_empty_func_descriptor) \<and>
   copy empty_result src dst w = Normal dst w \<and>
   move empty_result src dst w = Normal (src, dst) w \<and>
   destroy empty_result src w = Normal src w \<and>
   invoke empty_result src args w = Raise bad_function_call w \<and>
   copy empty_result_hA src dst w = Normal src w \<and>
   move empty_result_hA src dst w = Normal (src, src) w \<and>
   destroy empty_result_hA src w = Normal src w \<and>
   invoke empty_result_hA src args w = Raise bad_function_call w \<and>
   copy empty_result_hB src dst w = Normal src w \<and>
   move empty_result_hB src dst w = Normal (src, src) w \<and>
   destroy empty_result_hB src w = Normal src w \<and>
   invoke empty_result_hB src args w = Raise bad_function_call w"
  by (auto simp add: table_defs operator_bool_def)

theorem empty_descriptor_operations_witness:
  "copy empty_result (Pointer 3) Indeterminate empty_world = Normal Indeterminate empty_world \<and>
   copy empty_result_hA (Pointer 3) Indeterminate empty_world = Normal (Pointer 3) empty_world \<and>
   move empty_result_hB (Pointer 3) Indeterminate empty_world
     = Normal (Pointer 3, Pointer 3) empty_world \<and>
   invoke empty_result (Pointer 3) (4::int) empty_world = Raise bad_function_call empty_world"
  using empty_descriptor_operations
    [of lp64 "\<lparr>storage = Indeterminate, desc = empty_func_descriptor\<rparr>" "Pointer 3"
      Indeterminate empty_world 4]
  by blast

text \<open>
  C9, as stated, fails on both drafts of \<open>function.h\<close>: with a stale pointer in the source
  buffer of an empty container, \<open>copy\<close> and \<open>move\<close> of the empty descriptor change the
  destination buffer.
\<close>

theorem empty_descriptor_counterexample:
  "\<not> (copy empty_result_hA (Pointer 3) Indeterminate empty_world
        = Normal Indeterminate empty_world) \<and>
   \<not> (move empty_result_hB (Pointer 3) Indeterminate empty_world
        = Normal (Pointer 3, Indeterminate) empty_world)"
  by (simp add: table_defs)

section \<open>Self-assignment\<close>

text \<open>
  C10. Copy-assigning or move-assigning an object to itself returns normally and leaves
  the whole state as it was: the object's descriptor and buffer, the heap, and the trace
  (so no destructor ran).
\<close>

theorem self_assignment_is_identity:
  "assign_copy M a a w = Normal () w \<and> assign_move M a a w = Normal () w"
  by (simp add: assign_copy_def assign_move_def)

theorem self_assignment_is_identity_witness:
  "assign_copy lp64 0 0 big_world = Normal () big_world \<and>
   assign_move lp64 0 0 big_world = Normal () big_world \<and>
   heap big_world 0 = Some (Live 2 5) \<and> call_at lp64 0 3 big_world = Normal 8 ()"
  using self_assignment_is_identity [of lp64 0 big_world]
  by (simp add: example_defs call_at_def operator_call_def table_defs invoke_T_def cast_def
      fits_small_def big_cast_def heap_object_def)

section \<open>Typed access\<close>



section \<open>Copy assignment\<close>

text \<open>
  Copy assignment of \<open>part_000\<close> is commit-or-rollback. When it leaves by an exception,
  whatever the two objects are, the state is the state before the call, or that state
  after a new-expression whose constructor threw: every object and its buffer are as they
  were, and no destructor ran. In a state that satisfies the ownership invariant,
  assigning a living object to another one either raises so, and then the heap is as it
  was and every object answers every call as before, or returns, and then every event
  that stages the copy (memory obtained, copy constructor run) comes in the trace before
  every event that releases the old value (destructor run, memory given back), and the
  target has the staged buffer and the source's descriptor.
\<close>

theorem copy_assignment_commit_or_rollback:
  "(assign_copy M this other w = Raise e w' \<longrightarrow> w' = w \<or> w' = failed_new w) \<and>
   (exactly_once M w \<and> this \<noteq> other \<and> objects w this = Some self \<and>
    objects w other = Some oth \<longrightarrow>
      (\<exists>e w'. assign_copy M this other w = Raise e w' \<and> (w' = w \<or> w' = failed_new w) \<and>
         objects w' = objects w \<and> heap w' = heap w \<and>
         (\<forall>c args. call_at M c args w' = call_at M c args w)) \<or>
      (\<exists>w'' cs ds buf. assign_copy M this other w = Normal () w'' \<and>
         trace w'' = trace w @ cs @ ds \<and> list_all is_acquire cs \<and> list_all is_release ds \<and>
         objects w'' = (objects w)(this \<mapsto> \<lparr>storage = buf, desc = desc oth\<rparr>)))"
proof (intro conjI impI)
  assume r: "assign_copy M this other w = Raise e w'"
  show "w' = w \<or> w' = failed_new w"
  proof (cases "this \<noteq> other \<and> objects w this \<noteq> None \<and> objects w other \<noteq> None")
    case False
    with r show ?thesis
      by (auto simp add: assign_copy_def split: if_splits option.splits)
  next
    case True
    then obtain self oth where so: "this \<noteq> other" "objects w this = Some self"
      "objects w other = Some oth" by auto
    show ?thesis
    proof (cases "copy (deref M (desc oth)) (storage oth) Indeterminate w")
      case (Normal buf w1)
      with r so show ?thesis
        by (cases "destroy (deref M (desc self)) (storage self) w1")
          (auto simp add: assign_copy_def destroy_never_raises)
    next
      case (Raise e' w1)
      with r so copy_raises_unchanged [OF Raise] show ?thesis
        by (simp add: assign_copy_def)
    qed (use r so in \<open>simp_all add: assign_copy_def\<close>)
  qed
next
  assume h: "exactly_once M w \<and> this \<noteq> other \<and> objects w this = Some self \<and>
    objects w other = Some oth"
  then have inv: "exactly_once M w" and ne: "this \<noteq> other"
    and s: "objects w this = Some self" and ot: "objects w other = Some oth" by auto
  have wfo: "well_formed M w oth" and wfs: "well_formed M w self"
    using inv s ot by (auto intro: exactly_once_well_formed)
  from copy_effect [OF wfo, of Indeterminate]
  show "(\<exists>e w'. assign_copy M this other w = Raise e w' \<and> (w' = w \<or> w' = failed_new w) \<and>
         objects w' = objects w \<and> heap w' = heap w \<and>
         (\<forall>c args. call_at M c args w' = call_at M c args w)) \<or>
      (\<exists>w'' cs ds buf. assign_copy M this other w = Normal () w'' \<and>
         trace w'' = trace w @ cs @ ds \<and> list_all is_acquire cs \<and> list_all is_release ds \<and>
         objects w'' = (objects w)(this \<mapsto> \<lparr>storage = buf, desc = desc oth\<rparr>))"
  proof (elim disjE exE conjE)
    fix e w'
    assume c: "copy (deref M (desc oth)) (storage oth) Indeterminate w = Raise e w'"
      and "w' \<in> {w, failed_new w}"
    then have w': "w' = w \<or> w' = failed_new w" by simp
    have r: "assign_copy M this other w = Raise e w'"
      using c ne s ot by (simp add: assign_copy_def)
    from w' exactly_once_fresh [OF inv]
    have o: "objects w' = objects w" and hp: "heap w' = heap w"
      by (auto simp add: failed_new_frame)
    have "call_at M c args w' = call_at M c args w" for c args
      by (rule call_at_frame) (simp_all add: o hp)
    with r w' o hp show ?thesis by blast
  next
    fix buf w1 cs
    assume c: "copy (deref M (desc oth)) (storage oth) Indeterminate w = Normal buf w1"
      and o1: "objects w1 = objects w" and t1: "trace w1 = trace w @ cs"
      and acq: "list_all is_acquire cs"
      and hp: "case block M \<lparr>storage = buf, desc = desc oth\<rparr> of
               None \<Rightarrow> heap w1 = heap w \<and> fresh w1 = fresh w \<and> allocations cs = []
             | Some p \<Rightarrow> p = fresh w \<and> (\<exists>x. heap w1 = (heap w)(p \<mapsto> x)) \<and>
                 fresh w1 = Suc (fresh w) \<and> allocations cs = [p]"
    have "well_formed M w1 self"
    proof (rule well_formed_frame [OF wfs])
      fix p assume b: "block M self = Some p"
      have "heap w p \<noteq> None" using exactly_once_block_live [OF inv s b] .
      with exactly_once_fresh [OF inv] have "p \<noteq> fresh w" by auto
      with hp show "heap w1 p = heap w p"
        by (auto split: option.splits)
    qed
    from destroy_effect [OF this] obtain s' w2 ds where
      d: "destroy (deref M (desc self)) (storage self) w1 = Normal s' w2"
      and o2: "objects w2 = objects w1" and t2: "trace w2 = trace w1 @ ds"
      and rel: "list_all is_release ds" by blast
    from c d ne s ot o1 o2 t1 t2 acq rel show ?thesis
      by (auto simp add: assign_copy_def put_def)
  qed
qed

theorem copy_assignment_commit_or_rollback_witness:
  "assign_copy lp64 0 1 fragile_world = Raise (payload_exception 7) (failed_new fragile_world) \<and>
   objects (failed_new fragile_world) = objects fragile_world \<and>
   heap (failed_new fragile_world) = heap fragile_world \<and>
   trace (failed_new fragile_world) = trace fragile_world @ [Allocated 1, Deallocated 1] \<and>
   call_at lp64 0 3 fragile_world = Normal 8 () \<and>
   call_at lp64 0 3 (failed_new fragile_world) = Normal 8 ()"
proof -
  have r: "assign_copy lp64 0 1 fragile_world
      = Raise (payload_exception 7) (failed_new fragile_world)"
    by (simp add: member_defs memory_defs table_defs example_defs)
  have c: "call_at lp64 0 3 fragile_world = Normal 8 ()"
    by (simp add: member_defs memory_defs table_defs example_defs)
  have f: "objects (failed_new fragile_world) = objects fragile_world"
    "heap (failed_new fragile_world) = heap fragile_world"
    "trace (failed_new fragile_world) = trace fragile_world @ [Allocated 1, Deallocated 1]"
    by (simp_all add: failed_new_def example_defs)
  have ne: "(0::nat) \<noteq> 1" by simp
  have o: "objects fragile_world 0 = Some \<lparr>storage = Inline 1 5, desc = descriptor_of adder\<rparr>"
    "objects fragile_world 1 = Some \<lparr>storage = Pointer 0, desc = descriptor_of fragile\<rparr>"
    by (simp_all add: example_defs)
  from copy_assignment_commit_or_rollback
      [of lp64 0 1 fragile_world "payload_exception 7" "failed_new fragile_world"
        "\<lparr>storage = Inline 1 5, desc = descriptor_of adder\<rparr>"
        "\<lparr>storage = Pointer 0, desc = descriptor_of fragile\<rparr>"]
    exactly_once_fragile_world ne o r
  have "\<forall>c args. call_at lp64 c args (failed_new fragile_world)
      = call_at lp64 c args fragile_world"
    by auto
  with r c f show ?thesis by simp
qed

text \<open>
  C1 fails on the first draft of \<open>function.h\<close> (lines 150-158), which destroys the target
  and rebinds its descriptor before it copies. Both objects are built by the draft's
  \<open>function(T)\<close>: the target at address 0 holds an \<open>adder\<close> that answers 8 to the
  argument 3, the source at address 1 holds a \<open>fragile\<close> callable, whose copy constructor
  throws. The assignment leaves by that exception with the target's \<open>adder\<close> destroyed
  and the target bound to \<open>fragile\<close>'s descriptor over an indeterminate buffer: calling
  it and destroying it are then undefined. \<open>part_000\<close> on the same input leaves both
  objects and the heap as they were (the block of the failed new-expression was obtained
  and given back), and the target still answers 8.
\<close>

theorem first_draft_copy_assignment_not_exception_safe:
  "function_from_hA lp64 0 adder 5 empty_world = Normal () small_world \<and>
   function_from_hA lp64 1 fragile 9 small_world = Normal () fragile_world \<and>
   call_at_hA lp64 0 3 fragile_world = Normal 8 () \<and>
   assign_copy_hA lp64 0 1 fragile_world
     = Raise (payload_exception 7)
         \<lparr> objects = [0 \<mapsto> \<lparr>storage = Indeterminate, desc = descriptor_of fragile\<rparr>,
                      1 \<mapsto> \<lparr>storage = Pointer 0, desc = descriptor_of fragile\<rparr>],
           heap = [0 \<mapsto> Live 3 9], fresh = 2,
           trace = [Move_constructed 1, Allocated 0, Move_constructed 3, Destroyed 1,
                    Allocated 1, Deallocated 1] \<rparr> \<and>
   call_at_hA lp64 0 3
     \<lparr> objects = [0 \<mapsto> \<lparr>storage = Indeterminate, desc = descriptor_of fragile\<rparr>,
                  1 \<mapsto> \<lparr>storage = Pointer 0, desc = descriptor_of fragile\<rparr>],
       heap = [0 \<mapsto> Live 3 9], fresh = 2,
       trace = [Move_constructed 1, Allocated 0, Move_constructed 3, Destroyed 1,
                Allocated 1, Deallocated 1] \<rparr> = Undefined \<and>
   function_dtor_hA lp64 0
     \<lparr> objects = [0 \<mapsto> \<lparr>storage = Indeterminate, desc = descriptor_of fragile\<rparr>,
                  1 \<mapsto> \<lparr>storage = Pointer 0, desc = descriptor_of fragile\<rparr>],
       heap = [0 \<mapsto> Live 3 9], fresh = 2,
       trace = [Move_constructed 1, Allocated 0, Move_constructed 3, Destroyed 1,
                Allocated 1, Deallocated 1] \<rparr> = Undefined \<and>
   assign_copy lp64 0 1 fragile_world
     = Raise (payload_exception 7)
         \<lparr> objects = [0 \<mapsto> \<lparr>storage = Inline 1 5, desc = descriptor_of adder\<rparr>,
                      1 \<mapsto> \<lparr>storage = Pointer 0, desc = descriptor_of fragile\<rparr>],
           heap = [0 \<mapsto> Live 3 9], fresh = 2,
           trace = [Move_constructed 1, Allocated 0, Move_constructed 3,
                    Allocated 1, Deallocated 1] \<rparr> \<and>
   call_at lp64 0 3
     \<lparr> objects = [0 \<mapsto> \<lparr>storage = Inline 1 5, desc = descriptor_of adder\<rparr>,
                  1 \<mapsto> \<lparr>storage = Pointer 0, desc = descriptor_of fragile\<rparr>],
       heap = [0 \<mapsto> Live 3 9], fresh = 2,
       trace = [Move_constructed 1, Allocated 0, Move_constructed 3,
                Allocated 1, Deallocated 1] \<rparr> = Normal 8 ()"
  by (simp add: member_defs_hA member_defs memory_defs table_defs example_defs fun_upd_twist)

section \<open>Classification and construction from a value\<close>

text \<open>
  In \<open>part_000\<close> the classification is the one the specification words: \<open>fits_small\<close>
  holds exactly when the size is strictly below the buffer's, the buffer's alignment is a
  multiple of the type's, and both moves are \<open>noexcept\<close>. When the payload's move
  constructor returns, \<open>function(T)\<close> returns with \<open>T\<close>'s descriptor bound and a buffer that
  agrees with it: the moved value inline, with the heap and the list of allocations
  unchanged, exactly when \<open>T\<close> is small; otherwise exactly one new heap block, holding the
  moved value, whose address is in the buffer.
\<close>

theorem construct_from_value_placement:
  "(fits_small M T \<longleftrightarrow> classified_small M T) \<and>
   (move_ctor T val = Inr r \<longrightarrow>
      (\<exists>w' f. function_from M this T val w = Normal () w' \<and>
         objects w' = (objects w)(this \<mapsto> f) \<and> desc f = get_descriptor T \<and>
         well_formed M w' f \<and> cast M T (storage f) w' = Some (fst r) \<and>
         (if fits_small M T
          then storage f = Inline (type_name T) (fst r) \<and> heap w' = heap w \<and>
               allocations (trace w') = allocations (trace w)
          else storage f = Pointer (fresh w) \<and>
               heap w' = (heap w)(fresh w \<mapsto> Live (type_name T) (fst r)) \<and>
               allocations (trace w') = allocations (trace w) @ [fresh w])))"
  by (auto simp add: fits_small_def classified_small_def sizeof_storage_t_def
      alignof_storage_t_def function_from_def move_construct_def new_move_eq
      log_event_def put_def get_descriptor_def well_formed_def cast_def small_cast_def
      big_cast_def heap_object_def allocations_append)

theorem construct_from_value_placement_witness:
  "(\<exists>w' f. function_from lp64 0 adder 5 empty_world = Normal () w' \<and>
      storage f = Inline 1 5 \<and> objects w' 0 = Some f \<and> heap w' = Map.empty) \<and>
   (\<exists>w' f. function_from lp64 0 big_adder 5 empty_world = Normal () w' \<and>
      storage f = Pointer 0 \<and> objects w' 0 = Some f \<and> heap w' = [0 \<mapsto> Live 2 5])"
proof -
  have s: "fits_small lp64 adder" and b: "\<not> fits_small lp64 big_adder"
    by (simp_all add: fits_small_def example_defs)
  have ms: "move_ctor adder 5 = Inr (5, 0)" and mb: "move_ctor big_adder 5 = Inr (5, 0)"
    by (simp_all add: example_defs)
  from construct_from_value_placement [of lp64 adder 5 "(5, 0)" 0 empty_world] s ms
  have "\<exists>w' f. function_from lp64 0 adder 5 empty_world = Normal () w' \<and>
      storage f = Inline 1 5 \<and> objects w' 0 = Some f \<and> heap w' = Map.empty"
    by (auto simp add: example_defs)
  moreover
  from construct_from_value_placement [of lp64 big_adder 5 "(5, 0)" 0 empty_world] b mb
  have "\<exists>w' f. function_from lp64 0 big_adder 5 empty_world = Normal () w' \<and>
      storage f = Pointer 0 \<and> objects w' 0 = Some f \<and> heap w' = [0 \<mapsto> Live 2 5]"
    by (auto simp add: example_defs)
  ultimately show ?thesis by blast
qed

text \<open>
  C3 fails on the first draft of \<open>function.h\<close> (lines 137-148), whose constructor decides
  by size and alignment alone while the descriptor's operations decide by \<open>fits_small\<close>.
  The callable \<open>wary\<close> has 4 bytes and a move constructor that is not \<open>noexcept\<close>, so it is
  not small. The draft's constructor places it inline and allocates nothing; the
  descriptor then reads the buffer as a pointer, so calling the container, destroying it
  and \<open>target\<close> have no defined result. \<open>part_000\<close> on the same input makes one heap block
  and the call answers 8.
\<close>

theorem first_draft_constructor_disagrees:
  "\<not> fits_small lp64 wary \<and>
   function_from_hA lp64 0 wary 5 empty_world
     = Normal ()
         \<lparr> objects = [0 \<mapsto> \<lparr>storage = Inline 4 5, desc = descriptor_of wary\<rparr>],
           heap = Map.empty, fresh = 0, trace = [Move_constructed 4] \<rparr> \<and>
   call_at_hA lp64 0 3
     \<lparr> objects = [0 \<mapsto> \<lparr>storage = Inline 4 5, desc = descriptor_of wary\<rparr>],
       heap = Map.empty, fresh = 0, trace = [Move_constructed 4] \<rparr> = Undefined \<and>
   function_dtor_hA lp64 0
     \<lparr> objects = [0 \<mapsto> \<lparr>storage = Inline 4 5, desc = descriptor_of wary\<rparr>],
       heap = Map.empty, fresh = 0, trace = [Move_constructed 4] \<rparr> = Undefined \<and>
   target_hA lp64 wary 0 \<lparr>storage = Inline 4 5, desc = descriptor_of wary\<rparr> = None \<and>
   function_from lp64 0 wary 5 empty_world
     = Normal ()
         \<lparr> objects = [0 \<mapsto> \<lparr>storage = Pointer 0, desc = descriptor_of wary\<rparr>],
           heap = [0 \<mapsto> Live 4 5], fresh = 1, trace = [Allocated 0, Move_constructed 4] \<rparr> \<and>
   call_at lp64 0 3
     \<lparr> objects = [0 \<mapsto> \<lparr>storage = Pointer 0, desc = descriptor_of wary\<rparr>],
       heap = [0 \<mapsto> Live 4 5], fresh = 1, trace = [Allocated 0, Move_constructed 4] \<rparr>
     = Normal 8 ()"
  by (simp add: member_defs_hA member_defs memory_defs table_defs example_defs operator_bool_def)

section \<open>Moving a small payload\<close>

text \<open>
  In \<open>part_000\<close> the \<open>move\<close> of a small type's descriptor move-constructs into the
  destination and then destroys the object in the source: the destination holds the new
  object, the source buffer holds no object, and the trace gains the move construction
  followed by the destruction. After the move constructor of \<open>function\<close> the source
  object is bound to the empty descriptor over that buffer.
\<close>

theorem small_move_constructs_then_destroys:
  "fits_small M T \<and> move_ctor T v = Inr r \<longrightarrow>
     move (deref M (get_descriptor T)) (Inline (type_name T) v) dst w
       = Normal (Indeterminate, Inline (type_name T) (fst r))
           (w\<lparr>trace := trace w @ [Move_constructed (type_name T), Destroyed (type_name T)]\<rparr>) \<and>
     (objects w a = Some \<lparr>storage = Inline (type_name T) v, desc = get_descriptor T\<rparr> \<and> a \<noteq> b
      \<longrightarrow> (\<exists>w'. function_move M b a w = Normal () w' \<and>
             objects w' a = Some \<lparr>storage = Indeterminate, desc = get_empty_func_descriptor\<rparr> \<and>
             objects w' b = Some \<lparr>storage = Inline (type_name T) (fst r), desc = get_descriptor T\<rparr> \<and>
             trace w' = trace w @ [Move_constructed (type_name T), Destroyed (type_name T)]))"
  by (auto simp add: get_descriptor_def get_empty_func_descriptor_def result_def move_T_small
      function_move_def put_def)

theorem small_move_constructs_then_destroys_witness:
  "\<exists>w'. function_move lp64 1 0 small_world = Normal () w' \<and>
      objects w' 0 = Some \<lparr>storage = Indeterminate, desc = get_empty_func_descriptor\<rparr> \<and>
      objects w' 1 = Some \<lparr>storage = Inline 1 5, desc = get_descriptor adder\<rparr> \<and>
      trace w' = [Move_constructed 1, Move_constructed 1, Destroyed 1]"
proof -
  have "fits_small lp64 adder \<and> move_ctor adder 5 = Inr (5, 0)"
    by (simp add: fits_small_def example_defs)
  moreover have "objects small_world 0
      = Some \<lparr>storage = Inline (type_name adder) 5, desc = get_descriptor adder\<rparr> \<and> (0::nat) \<noteq> 1"
    by (simp add: example_defs get_descriptor_def)
  ultimately show ?thesis
    using small_move_constructs_then_destroys
      [of lp64 adder 5 "(5, 0)" Indeterminate small_world 0 1]
    by (simp add: example_defs)
qed

text \<open>
  C4 fails on both drafts of \<open>function.h\<close>. The object at address 0, built by
  \<open>function(T)\<close> (the second draft's constructor reads as the one of \<open>part_000\<close>), holds
  an \<open>adder\<close> inline and is moved into a new object at address 1. In the second draft
  (lines 301-307) \<open>move\<close> move-constructs and does not destroy: the source, now bound to
  the empty descriptor, still holds the moved-from \<open>adder\<close>, and destroying the source
  object runs no destructor for it. In the first draft (lines 96-108) \<open>move\<close> copies the
  bytes: no move constructor and no destructor run, and the source keeps its \<open>adder\<close>.
  \<open>part_000\<close> on the same input leaves no object in the source.
\<close>

theorem drafts_small_move_leaves_object:
  "function_from_hA lp64 0 adder 5 empty_world = Normal () small_world \<and>
   function_from lp64 0 adder 5 empty_world = Normal () small_world \<and>
   function_move_hB lp64 1 0 small_world
     = Normal ()
         \<lparr> objects = [0 \<mapsto> \<lparr>storage = Inline 1 0, desc = empty_func_descriptor\<rparr>,
                      1 \<mapsto> \<lparr>storage = Inline 1 5, desc = descriptor_of adder\<rparr>],
           heap = Map.empty, fresh = 0, trace = [Move_constructed 1, Move_constructed 1] \<rparr> \<and>
   function_dtor_hB lp64 0
     \<lparr> objects = [0 \<mapsto> \<lparr>storage = Inline 1 0, desc = empty_func_descriptor\<rparr>,
                  1 \<mapsto> \<lparr>storage = Inline 1 5, desc = descriptor_of adder\<rparr>],
       heap = Map.empty, fresh = 0, trace = [Move_constructed 1, Move_constructed 1] \<rparr>
     = Normal ()
         \<lparr> objects = [1 \<mapsto> \<lparr>storage = Inline 1 5, desc = descriptor_of adder\<rparr>],
           heap = Map.empty, fresh = 0, trace = [Move_constructed 1, Move_constructed 1] \<rparr> \<and>
   function_move_hA lp64 1 0 small_world
     = Normal ()
         \<lparr> objects = [0 \<mapsto> \<lparr>storage = Inline 1 5, desc = empty_func_descriptor\<rparr>,
                      1 \<mapsto> \<lparr>storage = Inline 1 5, desc = descriptor_of adder\<rparr>],
           heap = Map.empty, fresh = 0, trace = [Move_constructed 1] \<rparr> \<and>
   function_move lp64 1 0 small_world
     = Normal ()
         \<lparr> objects = [0 \<mapsto> \<lparr>storage = Indeterminate, desc = empty_func_descriptor\<rparr>,
                      1 \<mapsto> \<lparr>storage = Inline 1 5, desc = descriptor_of adder\<rparr>],
           heap = Map.empty, fresh = 0,
           trace = [Move_constructed 1, Move_constructed 1, Destroyed 1] \<rparr>"
  by (simp add: member_defs_hA member_defs memory_defs table_defs example_defs
      function_move_hB_def function_dtor_hB_def move_T_hB_def fun_upd_twist)

section \<open>Copy construction\<close>

lemma function_copy_small:
  assumes "objects w a = Some fa" and "desc fa = descriptor_of T" and "fits_small M T"
    and "storage fa = Inline (type_name T) v"
  shows "function_copy M b a w =
           (case copy_ctor T v of
              Inl e \<Rightarrow> Raise e w
            | Inr v' \<Rightarrow>
                Normal ()
                  (put b \<lparr>storage = Inline (type_name T) v', desc = descriptor_of T\<rparr>
                     (w\<lparr>trace := trace w @ [Copy_constructed (type_name T)]\<rparr>)))"
  using assms by (simp add: function_copy_def result_def copy_T_small split: sum.splits)

lemma function_copy_large:
  assumes "objects w a = Some fa" and "desc fa = descriptor_of T" and "\<not> fits_small M T"
    and "storage fa = Pointer p" and "heap w p = Some (Live (type_name T) v)"
  shows "function_copy M b a w =
           (case copy_ctor T v of
              Inl e \<Rightarrow> Raise e (failed_new w)
            | Inr v' \<Rightarrow>
                Normal ()
                  (put b \<lparr>storage = Pointer (fresh w), desc = descriptor_of T\<rparr>
                     (w\<lparr>heap := (heap w)(fresh w \<mapsto> Live (type_name T) v'),
                        fresh := Suc (fresh w),
                        trace := trace w
                          @ [Allocated (fresh w), Copy_constructed (type_name T)]\<rparr>)))"
  using assms by (simp add: function_copy_def result_def copy_T_large split: sum.splits)

text \<open>
  Copy construction in \<open>part_000\<close>. Let \<open>a\<close> be a living object that holds a \<open>T\<close> with the
  value \<open>v\<close>, and \<open>b\<close> an address where no object lives. When \<open>T\<close>'s copy constructor
  throws on \<open>v\<close>, the copy construction of \<open>b\<close> from \<open>a\<close> leaves by that exception with
  every object and the heap as they were. When it returns \<open>v'\<close>, the copy construction
  returns; it has run exactly that copy constructor (into the buffer of \<open>b\<close> when \<open>T\<close> is
  small, into one new heap block otherwise); \<open>a\<close> is the object it was and holds \<open>v\<close>;
  \<open>b\<close> has \<open>a\<close>'s descriptor and holds \<open>v'\<close>, in a place of its own; \<open>a\<close> answers every
  call as before and \<open>b\<close> answers as a \<open>T\<close> with the value \<open>v'\<close> does, so as \<open>a\<close> does when
  the copy behaves as the original. A write through the pointer \<open>target<T>()\<close> gives for
  \<open>a\<close> changes the value and the answers of \<open>a\<close> and neither the value nor the answers of
  \<open>b\<close>, and the other way round.
\<close>

theorem copy_makes_independent_value:
  assumes a: "objects w a = Some fa" and d: "desc fa = get_descriptor T"
    and v: "cast M T (storage fa) w = Some v"
    and b: "objects w b = None" and fr: "heap w (fresh w) = None"
  shows
    "(\<forall>e. copy_ctor T v = Inl e \<longrightarrow>
        (\<exists>w'. function_copy M b a w = Raise e w' \<and>
           objects w' = objects w \<and> heap w' = heap w \<and>
           trace w' = trace w @
             (if fits_small M T then [] else [Allocated (fresh w), Deallocated (fresh w)]))) \<and>
     (\<forall>v'. copy_ctor T v = Inr v' \<longrightarrow>
        (\<exists>w' fb p q. function_copy M b a w = Normal () w' \<and>
           objects w' = (objects w)(b \<mapsto> fb) \<and> desc fb = desc fa \<and>
           trace w' = trace w @
             (if fits_small M T then [Copy_constructed (type_name T)]
              else [Allocated (fresh w), Copy_constructed (type_name T)]) \<and>
           target M T a fa = Some p \<and> target M T b fb = Some q \<and> p \<noteq> q \<and>
           pointee p w = Some (type_name T, v) \<and>
           pointee p w' = Some (type_name T, v) \<and>
           pointee q w' = Some (type_name T, v') \<and>
           (\<forall>args. call_at M a args w = answer T v args \<and>
                   call_at M a args w' = answer T v args \<and>
                   call_at M b args w' = answer T v' args) \<and>
           (call T v' = call T v \<longrightarrow> (\<forall>args. call_at M b args w' = call_at M a args w)) \<and>
           (\<forall>x. pointee p (assign_through p x w') = Some (type_name T, x) \<and>
                pointee q (assign_through p x w') = Some (type_name T, v') \<and>
                pointee q (assign_through q x w') = Some (type_name T, x) \<and>
                pointee p (assign_through q x w') = Some (type_name T, v)) \<and>
           (\<forall>x args. call_at M a args (assign_through p x w') = answer T x args \<and>
                     call_at M b args (assign_through p x w') = answer T v' args \<and>
                     call_at M b args (assign_through q x w') = answer T x args \<and>
                     call_at M a args (assign_through q x w') = answer T v args)))"
proof (cases "fits_small M T")
  case True
  have ab: "a \<noteq> b" using a b by auto
  have dT: "desc fa = descriptor_of T" using d by (simp add: get_descriptor_def)
  have st: "storage fa = Inline (type_name T) v"
    using v True
    by (auto simp add: cast_def small_cast_def split: storage_t.splits if_splits)
  have fa: "fa = \<lparr>storage = Inline (type_name T) v, desc = descriptor_of T\<rparr>"
    using st dT by (cases fa) simp
  note r = function_copy_small [OF a dT True st, of b]
  show ?thesis
  proof (intro conjI allI impI)
    fix e assume "copy_ctor T v = Inl e"
    with r True show "\<exists>w'. function_copy M b a w = Raise e w' \<and>
           objects w' = objects w \<and> heap w' = heap w \<and>
           trace w' = trace w @
             (if fits_small M T then [] else [Allocated (fresh w), Deallocated (fresh w)])"
      by simp
  next
    fix v' assume c: "copy_ctor T v = Inr v'"
    let ?fb = "\<lparr>storage = Inline (type_name T) v', desc = descriptor_of T\<rparr>"
    let ?w' = "put b ?fb (w\<lparr>trace := trace w @ [Copy_constructed (type_name T)]\<rparr>)"
    have r': "function_copy M b a w = Normal () ?w'" using r c by simp
    have oa: "objects ?w' a = Some fa" and ob: "objects ?w' b = Some ?fb"
      using a ab by (simp_all add: put_def)
    have wa: "assign_through (storage_addr a) x ?w'
        = put a \<lparr>storage = Inline (type_name T) x, desc = descriptor_of T\<rparr> ?w'" for x
      using oa by (simp add: assign_through_def fa)
    have wb: "assign_through (storage_addr b) x ?w'
        = put b \<lparr>storage = Inline (type_name T) x, desc = descriptor_of T\<rparr> ?w'" for x
      using ob by (simp add: assign_through_def)
    have call: "call_at M c args w0 = answer T u args"
      if "objects w0 c = Some \<lparr>storage = Inline (type_name T) u, desc = descriptor_of T\<rparr>"
      for c args w0 u
      using that True
      by (simp add: call_at_def operator_call_def result_def invoke_T_def cast_def
          small_cast_def answer_def split: sum.splits)
    have ptr: "pointee (storage_addr c) w0 = Some (type_name T, u)"
      if "objects w0 c = Some \<lparr>storage = Inline (type_name T) u, desc = descriptor_of T\<rparr>"
      for c w0 u
      using that by (simp add: pointee_def)
    show "\<exists>w' fb p q. function_copy M b a w = Normal () w' \<and>
           objects w' = (objects w)(b \<mapsto> fb) \<and> desc fb = desc fa \<and>
           trace w' = trace w @
             (if fits_small M T then [Copy_constructed (type_name T)]
              else [Allocated (fresh w), Copy_constructed (type_name T)]) \<and>
           target M T a fa = Some p \<and> target M T b fb = Some q \<and> p \<noteq> q \<and>
           pointee p w = Some (type_name T, v) \<and>
           pointee p w' = Some (type_name T, v) \<and>
           pointee q w' = Some (type_name T, v') \<and>
           (\<forall>args. call_at M a args w = answer T v args \<and>
                   call_at M a args w' = answer T v args \<and>
                   call_at M b args w' = answer T v' args) \<and>
           (call T v' = call T v \<longrightarrow> (\<forall>args. call_at M b args w' = call_at M a args w)) \<and>
           (\<forall>x. pointee p (assign_through p x w') = Some (type_name T, x) \<and>
                pointee q (assign_through p x w') = Some (type_name T, v') \<and>
                pointee q (assign_through q x w') = Some (type_name T, x) \<and>
                pointee p (assign_through q x w') = Some (type_name T, v)) \<and>
           (\<forall>x args. call_at M a args (assign_through p x w') = answer T x args \<and>
                     call_at M b args (assign_through p x w') = answer T v' args \<and>
                     call_at M b args (assign_through q x w') = answer T x args \<and>
                     call_at M a args (assign_through q x w') = answer T v args)"
    proof (rule exI [of _ ?w'], rule exI [of _ ?fb], rule exI [of _ "storage_addr a"],
        rule exI [of _ "storage_addr b"], intro conjI allI impI)
      show "function_copy M b a w = Normal () ?w'" by (rule r')
      show "objects ?w' = (objects w)(b \<mapsto> ?fb)" by (simp add: put_def)
      show "desc ?fb = desc fa" by (simp add: dT)
      show "trace ?w' = trace w @
             (if fits_small M T then [Copy_constructed (type_name T)]
              else [Allocated (fresh w), Copy_constructed (type_name T)])"
        using True by (simp add: put_def)
      show "target M T a fa = Some (storage_addr a)"
        using True dT by (simp add: target_def cast_address_def get_descriptor_def)
      show "target M T b ?fb = Some (storage_addr b)"
        using True by (simp add: target_def cast_address_def get_descriptor_def)
      show "storage_addr a \<noteq> storage_addr b" using ab by simp
      show "pointee (storage_addr a) w = Some (type_name T, v)"
        by (rule ptr) (use a fa in simp)
      show "pointee (storage_addr a) ?w' = Some (type_name T, v)"
        by (rule ptr) (use oa fa in simp)
      show "pointee (storage_addr b) ?w' = Some (type_name T, v')"
        by (rule ptr) (use ob in simp)
      show "call_at M a args w = answer T v args" for args
        by (rule call) (use a fa in simp)
      show "call_at M a args ?w' = answer T v args" for args
        by (rule call) (use oa fa in simp)
      show "call_at M b args ?w' = answer T v' args" for args
        by (rule call) (use ob in simp)
      show "call_at M b args ?w' = call_at M a args w" if "call T v' = call T v" for args
        using call [of ?w' b v' args] call [of w a v args] ob a fa that
        by (simp add: answer_def)
      show "pointee (storage_addr a) (assign_through (storage_addr a) x ?w')
          = Some (type_name T, x)" for x
        unfolding wa by (rule ptr) (simp add: put_def)
      show "pointee (storage_addr b) (assign_through (storage_addr a) x ?w')
          = Some (type_name T, v')" for x
        unfolding wa by (rule ptr) (use ab in \<open>simp add: put_def\<close>)
      show "pointee (storage_addr b) (assign_through (storage_addr b) x ?w')
          = Some (type_name T, x)" for x
        unfolding wb by (rule ptr) (simp add: put_def)
      show "pointee (storage_addr a) (assign_through (storage_addr b) x ?w')
          = Some (type_name T, v)" for x
        unfolding wb by (rule ptr) (use a ab fa in \<open>simp add: put_def\<close>)
      show "call_at M a args (assign_through (storage_addr a) x ?w') = answer T x args"
        for x args
        unfolding wa by (rule call) (simp add: put_def)
      show "call_at M b args (assign_through (storage_addr a) x ?w') = answer T v' args"
        for x args
        unfolding wa by (rule call) (use ab in \<open>simp add: put_def\<close>)
      show "call_at M b args (assign_through (storage_addr b) x ?w') = answer T x args"
        for x args
        unfolding wb by (rule call) (simp add: put_def)
      show "call_at M a args (assign_through (storage_addr b) x ?w') = answer T v args"
        for x args
        unfolding wb by (rule call) (use a ab fa in \<open>simp add: put_def\<close>)
    qed
  qed
next
  case False
  have ab: "a \<noteq> b" using a b by auto
  have dT: "desc fa = descriptor_of T" using d by (simp add: get_descriptor_def)
  from v False obtain pa where st: "storage fa = Pointer pa"
    and hv: "heap w pa = Some (Live (type_name T) v)"
    by (auto simp add: cast_def big_cast_def heap_object_def
        split: storage_t.splits option.splits cell.splits if_splits)
  have fa: "fa = \<lparr>storage = Pointer pa, desc = descriptor_of T\<rparr>"
    using st dT by (cases fa) simp
  have ne: "pa \<noteq> fresh w" using hv fr by auto
  note r = function_copy_large [OF a dT False st hv, of b]
  show ?thesis
  proof (intro conjI allI impI)
    fix e assume "copy_ctor T v = Inl e"
    with r False fr show "\<exists>w'. function_copy M b a w = Raise e w' \<and>
           objects w' = objects w \<and> heap w' = heap w \<and>
           trace w' = trace w @
             (if fits_small M T then [] else [Allocated (fresh w), Deallocated (fresh w)])"
      by (simp add: failed_new_frame)
  next
    fix v' assume c: "copy_ctor T v = Inr v'"
    let ?fb = "\<lparr>storage = Pointer (fresh w), desc = descriptor_of T\<rparr>"
    let ?w' = "put b ?fb
        (w\<lparr>heap := (heap w)(fresh w \<mapsto> Live (type_name T) v'), fresh := Suc (fresh w),
           trace := trace w @ [Allocated (fresh w), Copy_constructed (type_name T)]\<rparr>)"
    have r': "function_copy M b a w = Normal () ?w'" using r c by simp
    have oa: "objects ?w' a = Some fa" and ob: "objects ?w' b = Some ?fb"
      using a ab by (simp_all add: put_def)
    have ha: "heap ?w' pa = Some (Live (type_name T) v)"
      and hb: "heap ?w' (fresh w) = Some (Live (type_name T) v')"
      using hv ne by (simp_all add: put_def)
    have wa: "assign_through (heap_addr pa) x ?w'
        = ?w'\<lparr>heap := (heap ?w')(pa \<mapsto> Live (type_name T) x)\<rparr>" for x
      using ha by (simp add: assign_through_def)
    have wb: "assign_through (heap_addr (fresh w)) x ?w'
        = ?w'\<lparr>heap := (heap ?w')(fresh w \<mapsto> Live (type_name T) x)\<rparr>" for x
      using hb by (simp add: assign_through_def)
    have call: "call_at M c args w0 = answer T u args"
      if "objects w0 c = Some \<lparr>storage = Pointer z, desc = descriptor_of T\<rparr>"
        and "heap w0 z = Some (Live (type_name T) u)"
      for c args w0 u z
      using that False
      by (simp add: call_at_def operator_call_def result_def invoke_T_def cast_def
          big_cast_def heap_object_def answer_def split: sum.splits)
    have ptr: "pointee (heap_addr z) w0 = Some (type_name T, u)"
      if "heap w0 z = Some (Live (type_name T) u)" for w0 u z
      using that by (simp add: pointee_def)
    show "\<exists>w' fb p q. function_copy M b a w = Normal () w' \<and>
           objects w' = (objects w)(b \<mapsto> fb) \<and> desc fb = desc fa \<and>
           trace w' = trace w @
             (if fits_small M T then [Copy_constructed (type_name T)]
              else [Allocated (fresh w), Copy_constructed (type_name T)]) \<and>
           target M T a fa = Some p \<and> target M T b fb = Some q \<and> p \<noteq> q \<and>
           pointee p w = Some (type_name T, v) \<and>
           pointee p w' = Some (type_name T, v) \<and>
           pointee q w' = Some (type_name T, v') \<and>
           (\<forall>args. call_at M a args w = answer T v args \<and>
                   call_at M a args w' = answer T v args \<and>
                   call_at M b args w' = answer T v' args) \<and>
           (call T v' = call T v \<longrightarrow> (\<forall>args. call_at M b args w' = call_at M a args w)) \<and>
           (\<forall>x. pointee p (assign_through p x w') = Some (type_name T, x) \<and>
                pointee q (assign_through p x w') = Some (type_name T, v') \<and>
                pointee q (assign_through q x w') = Some (type_name T, x) \<and>
                pointee p (assign_through q x w') = Some (type_name T, v)) \<and>
           (\<forall>x args. call_at M a args (assign_through p x w') = answer T x args \<and>
                     call_at M b args (assign_through p x w') = answer T v' args \<and>
                     call_at M b args (assign_through q x w') = answer T x args \<and>
                     call_at M a args (assign_through q x w') = answer T v args)"
    proof (rule exI [of _ ?w'], rule exI [of _ ?fb], rule exI [of _ "heap_addr pa"],
        rule exI [of _ "heap_addr (fresh w)"], intro conjI allI impI)
      show "function_copy M b a w = Normal () ?w'" by (rule r')
      show "objects ?w' = (objects w)(b \<mapsto> ?fb)" by (simp add: put_def)
      show "desc ?fb = desc fa" by (simp add: dT)
      show "trace ?w' = trace w @
             (if fits_small M T then [Copy_constructed (type_name T)]
              else [Allocated (fresh w), Copy_constructed (type_name T)])"
        using False by (simp add: put_def)
      show "target M T a fa = Some (heap_addr pa)"
        using False dT st
        by (simp add: target_def cast_address_def get_descriptor_def big_cast_def)
      show "target M T b ?fb = Some (heap_addr (fresh w))"
        using False by (simp add: target_def cast_address_def get_descriptor_def big_cast_def)
      show "heap_addr pa \<noteq> heap_addr (fresh w)" using ne by simp
      show "pointee (heap_addr pa) w = Some (type_name T, v)"
        by (rule ptr) (rule hv)
      show "pointee (heap_addr pa) ?w' = Some (type_name T, v)"
        by (rule ptr) (rule ha)
      show "pointee (heap_addr (fresh w)) ?w' = Some (type_name T, v')"
        by (rule ptr) (rule hb)
      show "call_at M a args w = answer T v args" for args
        by (rule call [of w a pa]) (use a fa hv in simp_all)
      show "call_at M a args ?w' = answer T v args" for args
        by (rule call [of ?w' a pa]) (use oa fa ha in simp_all)
      show "call_at M b args ?w' = answer T v' args" for args
        by (rule call [of ?w' b "fresh w"]) (use ob hb in simp_all)
      show "call_at M b args ?w' = call_at M a args w" if "call T v' = call T v" for args
        using call [of ?w' b "fresh w" v' args] call [of w a pa v args] ob hb a fa hv that
        by (simp add: answer_def)
      show "pointee (heap_addr pa) (assign_through (heap_addr pa) x ?w')
          = Some (type_name T, x)" for x
        unfolding wa by (rule ptr) simp
      show "pointee (heap_addr (fresh w)) (assign_through (heap_addr pa) x ?w')
          = Some (type_name T, v')" for x
        unfolding wa by (rule ptr) (use ne in \<open>simp add: put_def\<close>)
      show "pointee (heap_addr (fresh w)) (assign_through (heap_addr (fresh w)) x ?w')
          = Some (type_name T, x)" for x
        unfolding wb by (rule ptr) simp
      show "pointee (heap_addr pa) (assign_through (heap_addr (fresh w)) x ?w')
          = Some (type_name T, v)" for x
        unfolding wb by (rule ptr) (use ne hv in \<open>simp add: put_def\<close>)
      show "call_at M a args (assign_through (heap_addr pa) x ?w') = answer T x args"
        for x args
        unfolding wa by (rule call [of _ a pa]) (use a ab fa in \<open>simp_all add: put_def\<close>)
      show "call_at M b args (assign_through (heap_addr pa) x ?w') = answer T v' args"
        for x args
        unfolding wa by (rule call [of _ b "fresh w"]) (use ne in \<open>simp_all add: put_def\<close>)
      show "call_at M b args (assign_through (heap_addr (fresh w)) x ?w') = answer T x args"
        for x args
        unfolding wb by (rule call [of _ b "fresh w"]) (simp_all add: put_def)
      show "call_at M a args (assign_through (heap_addr (fresh w)) x ?w') = answer T v args"
        for x args
        unfolding wb
        by (rule call [of _ a pa]) (use a ab fa ne hv in \<open>simp_all add: put_def\<close>)
    qed
  qed
qed

theorem copy_makes_independent_value_witness:
  "(\<exists>w'. function_copy lp64 1 0 small_world = Normal () w' \<and>
      objects w' 1 = Some \<lparr>storage = Inline 1 5, desc = descriptor_of adder\<rparr> \<and>
      trace w' = [Move_constructed 1, Copy_constructed 1] \<and>
      call_at lp64 1 3 w' = Normal 8 () \<and>
      call_at lp64 0 3 (assign_through (storage_addr 0) 100 w') = Normal 103 () \<and>
      call_at lp64 1 3 (assign_through (storage_addr 0) 100 w') = Normal 8 ()) \<and>
   (\<exists>w'. function_copy lp64 1 0 big_world = Normal () w' \<and>
      objects w' 1 = Some \<lparr>storage = Pointer 1, desc = descriptor_of big_adder\<rparr> \<and>
      trace w' = [Allocated 0, Move_constructed 2, Allocated 1, Copy_constructed 2] \<and>
      call_at lp64 1 3 w' = Normal 8 () \<and>
      call_at lp64 0 3 (assign_through (heap_addr 0) 100 w') = Normal 103 () \<and>
      call_at lp64 1 3 (assign_through (heap_addr 0) 100 w') = Normal 8 ()) \<and>
   (\<exists>w'. function_copy lp64 1 0 brittle_world = Raise (payload_exception 7) w' \<and>
      objects w' = objects brittle_world \<and> trace w' = trace brittle_world)"
proof -
  have s: "objects small_world 0 = Some \<lparr>storage = Inline 1 5, desc = descriptor_of adder\<rparr>"
    "desc \<lparr>storage = Inline 1 5, desc = descriptor_of adder\<rparr> = get_descriptor adder"
    "cast lp64 adder (storage \<lparr>storage = Inline 1 5, desc = descriptor_of adder\<rparr>) small_world
       = Some 5"
    "objects small_world 1 = None" "heap small_world (fresh small_world) = None"
    by (simp_all add: example_defs get_descriptor_def cast_def fits_small_def small_cast_def)
  have l: "objects big_world 0 = Some \<lparr>storage = Pointer 0, desc = descriptor_of big_adder\<rparr>"
    "desc \<lparr>storage = Pointer 0, desc = descriptor_of big_adder\<rparr> = get_descriptor big_adder"
    "cast lp64 big_adder (storage \<lparr>storage = Pointer 0, desc = descriptor_of big_adder\<rparr>)
       big_world = Some 5"
    "objects big_world 1 = None" "heap big_world (fresh big_world) = None"
    by (simp_all add: example_defs get_descriptor_def cast_def fits_small_def big_cast_def
        heap_object_def)
  have t: "objects brittle_world 0 = Some \<lparr>storage = Inline 5 5, desc = descriptor_of brittle\<rparr>"
    "desc \<lparr>storage = Inline 5 5, desc = descriptor_of brittle\<rparr> = get_descriptor brittle"
    "cast lp64 brittle (storage \<lparr>storage = Inline 5 5, desc = descriptor_of brittle\<rparr>)
       brittle_world = Some 5"
    "objects brittle_world 1 = None" "heap brittle_world (fresh brittle_world) = None"
    by (simp_all add: example_defs get_descriptor_def cast_def fits_small_def small_cast_def)
  have fs: "fits_small lp64 adder" "\<not> fits_small lp64 big_adder" "fits_small lp64 brittle"
    by (simp_all add: fits_small_def example_defs)
  have cs: "copy_ctor adder 5 = Inr 5" "copy_ctor big_adder 5 = Inr 5"
    "copy_ctor brittle 5 = Inl (payload_exception 7)"
    by (simp_all add: example_defs)
  have an: "answer adder 5 3 = Normal 8 ()" "answer adder 100 3 = Normal 103 ()"
    "answer big_adder 5 3 = Normal 8 ()" "answer big_adder 100 3 = Normal 103 ()"
    by (simp_all add: answer_def example_defs)
  have ts: "target lp64 adder 0 \<lparr>storage = Inline 1 5, desc = descriptor_of adder\<rparr>
      = Some (storage_addr 0)"
    "target lp64 big_adder 0 \<lparr>storage = Pointer 0, desc = descriptor_of big_adder\<rparr>
      = Some (heap_addr 0)"
    using fs by (simp_all add: target_def cast_address_def get_descriptor_def big_cast_def)
  have n: "type_name adder = 1" "type_name big_adder = 2"
    "trace small_world = [Move_constructed 1]"
    "trace big_world = [Allocated 0, Move_constructed 2]" "fresh big_world = 1"
    by (simp_all add: example_defs)
  from copy_makes_independent_value [OF s] cs(1) fs(1) an ts(1) n
  have p1: "\<exists>w'. function_copy lp64 1 0 small_world = Normal () w' \<and>
      objects w' 1 = Some \<lparr>storage = Inline 1 5, desc = descriptor_of adder\<rparr> \<and>
      trace w' = [Move_constructed 1, Copy_constructed 1] \<and>
      call_at lp64 1 3 w' = Normal 8 () \<and>
      call_at lp64 0 3 (assign_through (storage_addr 0) 100 w') = Normal 103 () \<and>
      call_at lp64 1 3 (assign_through (storage_addr 0) 100 w') = Normal 8 ()"
    by (auto simp add: member_defs memory_defs table_defs example_defs)
  from copy_makes_independent_value [OF l] cs(2) fs(2) an ts(2) n
  have p2: "\<exists>w'. function_copy lp64 1 0 big_world = Normal () w' \<and>
      objects w' 1 = Some \<lparr>storage = Pointer 1, desc = descriptor_of big_adder\<rparr> \<and>
      trace w' = [Allocated 0, Move_constructed 2, Allocated 1, Copy_constructed 2] \<and>
      call_at lp64 1 3 w' = Normal 8 () \<and>
      call_at lp64 0 3 (assign_through (heap_addr 0) 100 w') = Normal 103 () \<and>
      call_at lp64 1 3 (assign_through (heap_addr 0) 100 w') = Normal 8 ()"
    by (auto simp add: member_defs memory_defs table_defs example_defs)
  from copy_makes_independent_value [OF t] cs(3) fs(3)
  have p3: "\<exists>w'. function_copy lp64 1 0 brittle_world = Raise (payload_exception 7) w' \<and>
      objects w' = objects brittle_world \<and> trace w' = trace brittle_world"
    by auto
  from p1 p2 p3 show ?thesis by (intro conjI)
qed

text \<open>
  C7 fails on the first draft of \<open>function.h\<close> (lines 88-95), whose \<open>copy\<close> of a small
  type's descriptor is \<open>dst = src\<close>: it copies the bytes of the buffer and never runs
  \<open>T\<close>'s copy constructor. The object at address 0, built by the draft's \<open>function(T)\<close>,
  holds inline a \<open>brittle\<close> callable, whose copy constructor throws. The draft's copy
  construction of a new object at address 1 returns normally: the new object holds a
  second \<open>brittle\<close> that no constructor made (the trace has no copy construction) and
  answers calls, the exception of the copy constructor is never seen, and destroying both
  objects runs the destructor twice for the one object that was constructed. \<open>part_000\<close>
  on the same input leaves by the copy constructor's exception with the state as it was.
  For an \<open>adder\<close> the draft likewise makes the second object without a copy construction,
  where \<open>part_000\<close> runs the copy constructor.
\<close>

theorem first_draft_copy_runs_no_copy_constructor:
  "fits_small lp64 brittle \<and>
   copy_ctor brittle 5 = Inl (payload_exception 7) \<and>
   function_from_hA lp64 0 brittle 5 empty_world = Normal () brittle_world \<and>
   function_copy_hA lp64 1 0 brittle_world
     = Normal ()
         \<lparr> objects = [0 \<mapsto> \<lparr>storage = Inline 5 5, desc = descriptor_of brittle\<rparr>,
                      1 \<mapsto> \<lparr>storage = Inline 5 5, desc = descriptor_of brittle\<rparr>],
           heap = Map.empty, fresh = 0, trace = [Move_constructed 5] \<rparr> \<and>
   call_at_hA lp64 1 3
     \<lparr> objects = [0 \<mapsto> \<lparr>storage = Inline 5 5, desc = descriptor_of brittle\<rparr>,
                  1 \<mapsto> \<lparr>storage = Inline 5 5, desc = descriptor_of brittle\<rparr>],
       heap = Map.empty, fresh = 0, trace = [Move_constructed 5] \<rparr> = Normal 8 () \<and>
   function_dtor_hA lp64 0
     \<lparr> objects = [0 \<mapsto> \<lparr>storage = Inline 5 5, desc = descriptor_of brittle\<rparr>,
                  1 \<mapsto> \<lparr>storage = Inline 5 5, desc = descriptor_of brittle\<rparr>],
       heap = Map.empty, fresh = 0, trace = [Move_constructed 5] \<rparr>
     = Normal ()
         \<lparr> objects = [1 \<mapsto> \<lparr>storage = Inline 5 5, desc = descriptor_of brittle\<rparr>],
           heap = Map.empty, fresh = 0, trace = [Move_constructed 5, Destroyed 5] \<rparr> \<and>
   function_dtor_hA lp64 1
     \<lparr> objects = [1 \<mapsto> \<lparr>storage = Inline 5 5, desc = descriptor_of brittle\<rparr>],
       heap = Map.empty, fresh = 0, trace = [Move_constructed 5, Destroyed 5] \<rparr>
     = Normal ()
         \<lparr> objects = Map.empty, heap = Map.empty, fresh = 0,
           trace = [Move_constructed 5, Destroyed 5, Destroyed 5] \<rparr> \<and>
   function_copy lp64 1 0 brittle_world = Raise (payload_exception 7) brittle_world \<and>
   function_from_hA lp64 0 adder 5 empty_world = Normal () small_world \<and>
   function_copy_hA lp64 1 0 small_world
     = Normal ()
         \<lparr> objects = [0 \<mapsto> \<lparr>storage = Inline 1 5, desc = descriptor_of adder\<rparr>,
                      1 \<mapsto> \<lparr>storage = Inline 1 5, desc = descriptor_of adder\<rparr>],
           heap = Map.empty, fresh = 0, trace = [Move_constructed 1] \<rparr> \<and>
   function_copy lp64 1 0 small_world
     = Normal ()
         \<lparr> objects = [0 \<mapsto> \<lparr>storage = Inline 1 5, desc = descriptor_of adder\<rparr>,
                      1 \<mapsto> \<lparr>storage = Inline 1 5, desc = descriptor_of adder\<rparr>],
           heap = Map.empty, fresh = 0,
           trace = [Move_constructed 1, Copy_constructed 1] \<rparr>"
  by (simp add: member_defs_hA member_defs memory_defs table_defs example_defs fun_upd_twist)

section \<open>Moving\<close>

lemma move_keeps_calls:
  assumes wf: "well_formed M w f" and mf: "moves_faithfully M f"
  shows "\<exists>s' d' w' ms. move (deref M (desc f)) (storage f) dst w = Normal (s', d') w' \<and>
           objects w' = objects w \<and> heap w' = heap w \<and> fresh w' = fresh w \<and>
           trace w' = trace w @ ms \<and> allocations ms = [] \<and> deallocations ms = [] \<and>
           well_formed M w' \<lparr>storage = d', desc = desc f\<rparr> \<and>
           block M \<lparr>storage = d', desc = desc f\<rparr> = block M f \<and>
           (\<forall>args. forget (operator_call M \<lparr>storage = d', desc = desc f\<rparr> args w')
                     = forget (operator_call M f args w))"
proof (cases "desc f")
  case empty_func_descriptor
  then show ?thesis
    by (simp add: table_defs block_def well_formed_def operator_call_def)
next
  case (descriptor_of T)
  from well_formed_cases [OF wf this] show ?thesis
  proof (elim disjE conjE exE)
    fix v assume s: "fits_small M T" "storage f = Inline (type_name T) v"
    with mf descriptor_of have "move_keeps_call T v"
      by (simp add: moves_faithfully_def small_cast_def)
    with s descriptor_of show ?thesis
      by (cases "move_ctor T v")
        (auto simp add: result_def move_T_small block_def well_formed_small operator_call_def
          invoke_T_def cast_def small_cast_def move_keeps_call_def split: sum.splits)
  next
    fix p v
    assume "\<not> fits_small M T" "storage f = Pointer p" "heap w p = Some (Live (type_name T) v)"
    with descriptor_of show ?thesis
      by (simp add: result_def move_T_large block_def big_cast_def well_formed_large
          operator_call_def invoke_T_def cast_def heap_object_def)
  qed
qed

lemma exactly_once_exclusive:
  assumes "exactly_once M w" and "objects w c = Some f" and "objects w c' = Some f'"
    and "c \<noteq> c'" and "block M f = Some p"
  shows "block M f' \<noteq> Some p"
proof
  assume "block M f' = Some p"
  with assms have "owned M w c = Some p" "owned M w c' = Some p"
    by (simp_all add: owned_def)
  with assms(1) have "c = c'" unfolding exactly_once_def by blast
  with assms(4) show False by simp
qed

lemma moved_from_is_empty:
  assumes "objects w' a = Some \<lparr>storage = s, desc = get_empty_func_descriptor\<rparr>"
  shows "\<not> operator_bool \<lparr>storage = s, desc = get_empty_func_descriptor\<rparr> \<and>
         (\<forall>args. operator_call M \<lparr>storage = s, desc = get_empty_func_descriptor\<rparr> args w'
                   = Raise bad_function_call w') \<and>
         (\<exists>w''. function_dtor M a w' = Normal () w'' \<and> heap w'' = heap w' \<and>
                trace w'' = trace w' \<and> objects w'' = (objects w')(a := None))"
  using assms
  by (simp add: operator_bool_def operator_call_def function_dtor_def table_defs)


text \<open>
  C2. In a state of \<open>part_000\<close> that satisfies the ownership invariant, let \<open>a\<close> be a
  living object, empty or holding a payload that moves faithfully, and \<open>b\<close> another
  address. Move construction of \<open>b\<close> from \<open>a\<close> (when no object lives at \<open>b\<close>) and move
  assignment of \<open>a\<close> to \<open>b\<close> (when one does) return normally. Afterwards \<open>a\<close> answers the
  boolean query with false, invoking \<open>a\<close> raises \<open>bad_function_call\<close> and leaves the state
  as it is, the destructor of \<open>a\<close> returns normally and touches neither the heap nor the
  trace, and \<open>b\<close> answers the boolean query and every call as \<open>a\<close> did before the move.
\<close>

theorem moving_empties_the_source:
  assumes inv: "exactly_once M w" and a: "objects w a = Some fa" and ab: "a \<noteq> b"
    and mf: "moves_faithfully M fa"
  shows "\<exists>w' fa' fb.
      (if objects w b = None then function_move M b a w else assign_move M b a w)
        = Normal () w' \<and>
      objects w' a = Some fa' \<and> objects w' b = Some fb \<and>
      \<not> operator_bool fa' \<and>
      (\<forall>args. operator_call M fa' args w' = Raise bad_function_call w') \<and>
      (\<exists>w''. function_dtor M a w' = Normal () w'' \<and> heap w'' = heap w' \<and>
             trace w'' = trace w' \<and> objects w'' = (objects w')(a := None)) \<and>
      (operator_bool fb \<longleftrightarrow> operator_bool fa) \<and>
      (\<forall>args. call_at M b args w' = call_at M a args w)"
proof -
  have wfa: "well_formed M w fa" using inv a by (rule exactly_once_well_formed)
  have fin: ?thesis
    if r: "(if objects w b = None then function_move M b a w else assign_move M b a w)
             = Normal () w'"
      and oa: "objects w' a = Some \<lparr>storage = s', desc = get_empty_func_descriptor\<rparr>"
      and ob: "objects w' b = Some \<lparr>storage = d', desc = desc fa\<rparr>"
      and hw: "heap w' = heap w2"
      and calls: "\<And>args. forget (operator_call M \<lparr>storage = d', desc = desc fa\<rparr> args w2)
                     = forget (operator_call M fa args w)"
    for w' w2 s' d'
  proof -
    have "forget (operator_call M \<lparr>storage = d', desc = desc fa\<rparr> args w')
        = forget (operator_call M \<lparr>storage = d', desc = desc fa\<rparr> args w2)" for args
      by (rule operator_call_frame) (simp add: hw)
    with calls a ob have cb: "\<forall>args. call_at M b args w' = call_at M a args w"
      by (simp add: call_at_def)
    have bb: "operator_bool \<lparr>storage = d', desc = desc fa\<rparr> \<longleftrightarrow> operator_bool fa"
      by (simp add: operator_bool_def)
    from moved_from_is_empty [OF oa, of M] r oa ob cb bb show ?thesis
      by blast
  qed
  show ?thesis
  proof (cases "objects w b")
    case None
    let ?w0 = "put a (fa\<lparr>desc := get_empty_func_descriptor\<rparr>) w"
    have wf0: "well_formed M ?w0 fa"
      by (rule well_formed_frame [OF wfa]) (simp add: put_def)
    from move_keeps_calls [OF wf0 mf, of Indeterminate]
    obtain s' d' w1 ms where
      m: "move (deref M (desc fa)) (storage fa) Indeterminate ?w0 = Normal (s', d') w1"
      and o1: "objects w1 = objects ?w0" and h1: "heap w1 = heap ?w0"
      and c1: "\<And>args. forget (operator_call M \<lparr>storage = d', desc = desc fa\<rparr> args w1)
                     = forget (operator_call M fa args ?w0)"
      by blast
    let ?w' = "put b \<lparr>storage = d', desc = desc fa\<rparr>
                 (put a \<lparr>storage = s', desc = get_empty_func_descriptor\<rparr> w1)"
    have r: "(if objects w b = None then function_move M b a w else assign_move M b a w)
        = Normal () ?w'"
      using None a m by (simp add: function_move_def)
    have "forget (operator_call M fa args ?w0) = forget (operator_call M fa args w)" for args
      by (rule operator_call_frame) (simp add: put_def)
    with c1 have c: "\<And>args. forget (operator_call M \<lparr>storage = d', desc = desc fa\<rparr> args w1)
                     = forget (operator_call M fa args w)" by simp
    show ?thesis
      by (rule fin [OF r _ _ _ c]) (use ab in \<open>simp_all add: put_def\<close>)
  next
    case (Some fb0)
    have wfb: "well_formed M w fb0" using inv Some by (rule exactly_once_well_formed)
    from destroy_effect [OF wfb] obtain s1 w1 ds where
      d: "destroy (deref M (desc fb0)) (storage fb0) w = Normal s1 w1"
      and o1: "objects w1 = objects w"
      and h1: "case block M fb0 of
              None \<Rightarrow> heap w1 = heap w \<and> deallocations ds = []
            | Some p \<Rightarrow> heap w1 = (heap w)(p := None) \<and> deallocations ds = [p]"
      by blast
    have keep: "heap w1 p = heap w p" if "block M fa = Some p" for p
      using exactly_once_exclusive [OF inv a Some ab that] h1
      by (auto split: option.splits)
    have wf1: "well_formed M w1 fa"
      by (rule well_formed_frame [OF wfa]) (rule keep)
    from move_keeps_calls [OF wf1 mf, of s1]
    obtain s' d' w2 ms where
      m: "move (deref M (desc fa)) (storage fa) s1 w1 = Normal (s', d') w2"
      and o2: "objects w2 = objects w1" and h2: "heap w2 = heap w1"
      and c2: "\<And>args. forget (operator_call M \<lparr>storage = d', desc = desc fa\<rparr> args w2)
                     = forget (operator_call M fa args w1)"
      by blast
    let ?w' = "put a \<lparr>storage = s', desc = get_empty_func_descriptor\<rparr>
                 (put b \<lparr>storage = d', desc = desc fa\<rparr> w2)"
    have r: "(if objects w b = None then function_move M b a w else assign_move M b a w)
        = Normal () ?w'"
      using Some a ab d m by (simp add: assign_move_def)
    have "forget (operator_call M fa args w1) = forget (operator_call M fa args w)" for args
      by (rule operator_call_frame) (rule keep)
    with c2 have c: "\<And>args. forget (operator_call M \<lparr>storage = d', desc = desc fa\<rparr> args w2)
                     = forget (operator_call M fa args w)" by simp
    show ?thesis
      by (rule fin [OF r _ _ _ c]) (use ab in \<open>simp_all add: put_def\<close>)
  qed
qed



theorem moving_empties_the_source_witness:
  "(\<exists>w' fa' fb. function_move lp64 1 0 big_world = Normal () w' \<and>
      objects w' 0 = Some fa' \<and> objects w' 1 = Some fb \<and> \<not> operator_bool fa' \<and>
      (\<forall>args. operator_call lp64 fa' args w' = Raise bad_function_call w') \<and>
      (\<forall>args. call_at lp64 1 args w' = call_at lp64 0 args big_world)) \<and>
   call_at lp64 0 3 big_world = Normal 8 () \<and>
   (\<exists>w' fa' fb. assign_move lp64 0 1 fragile_world = Normal () w' \<and>
      objects w' 1 = Some fa' \<and> objects w' 0 = Some fb \<and> \<not> operator_bool fa' \<and>
      (\<forall>args. call_at lp64 0 args w' = call_at lp64 1 args fragile_world)) \<and>
   call_at lp64 1 3 fragile_world = Normal 12 ()"
proof -
  have a: "objects big_world 0 = Some \<lparr>storage = Pointer 0, desc = descriptor_of big_adder\<rparr>"
    and b: "objects big_world 1 = None"
    by (simp_all add: example_defs)
  have mf: "moves_faithfully lp64 \<lparr>storage = Pointer 0, desc = descriptor_of big_adder\<rparr>"
    by (simp add: moves_faithfully_def small_cast_def)
  have a': "objects fragile_world 1 = Some \<lparr>storage = Pointer 0, desc = descriptor_of fragile\<rparr>"
    and b': "objects fragile_world 0 \<noteq> None"
    by (simp_all add: example_defs)
  have mf': "moves_faithfully lp64 \<lparr>storage = Pointer 0, desc = descriptor_of fragile\<rparr>"
    by (simp add: moves_faithfully_def small_cast_def)
  have c: "call_at lp64 0 3 big_world = Normal 8 ()"
    "call_at lp64 1 3 fragile_world = Normal 12 ()"
    by (simp_all add: member_defs memory_defs table_defs example_defs)
  from moving_empties_the_source [OF exactly_once_big_world a _ mf, of 1] b
    moving_empties_the_source [OF exactly_once_fragile_world a' _ mf', of 0] b' c
  show ?thesis by auto
qed

section \<open>Exactly-once ownership\<close>

lemma exactly_onceI:
  assumes "\<And>c f. objects w c = Some f \<Longrightarrow> well_formed M w f"
    and "\<And>c c' p. owned M w c = Some p \<Longrightarrow> owned M w c' = Some p \<Longrightarrow> c = c'"
    and "\<And>p. heap w p \<noteq> None \<Longrightarrow> \<exists>c. owned M w c = Some p"
    and "distinct (allocations (trace w))"
    and "distinct (deallocations (trace w))"
    and "set (deallocations (trace w)) \<subseteq> set (allocations (trace w))"
    and "dom (heap w) = set (allocations (trace w)) - set (deallocations (trace w))"
    and "\<And>p. p \<in> set (allocations (trace w)) \<Longrightarrow> p < fresh w"
  shows "exactly_once M w"
  unfolding exactly_once_def using assms by blast

lemma exactly_once_owner: "exactly_once M w \<Longrightarrow> heap w p \<noteq> None \<Longrightarrow> \<exists>c. owned M w c = Some p"
  unfolding exactly_once_def by blast

lemma exactly_once_inj:
  "exactly_once M w \<Longrightarrow> owned M w c = Some p \<Longrightarrow> owned M w c' = Some p \<Longrightarrow> c = c'"
  unfolding exactly_once_def by blast

lemma exactly_once_trace:
  assumes "exactly_once M w"
  shows "distinct (allocations (trace w))" "distinct (deallocations (trace w))"
    "set (deallocations (trace w)) \<subseteq> set (allocations (trace w))"
    "dom (heap w) = set (allocations (trace w)) - set (deallocations (trace w))"
    "\<And>p. p \<in> set (allocations (trace w)) \<Longrightarrow> p < fresh w"
  using assms unfolding exactly_once_def by blast+

lemma exactly_once_dom:
  assumes "exactly_once M w"
  shows "heap w q \<noteq> None \<longleftrightarrow>
           q \<in> set (allocations (trace w)) \<and> q \<notin> set (deallocations (trace w))"
proof -
  have "q \<in> dom (heap w) \<longleftrightarrow>
      q \<in> set (allocations (trace w)) - set (deallocations (trace w))"
    using exactly_once_trace(4) [OF assms] by simp
  then show ?thesis by (simp add: domIff)
qed

lemma owned_live:
  assumes "exactly_once M w" and "owned M w c = Some p"
  shows "heap w p \<noteq> None"
proof -
  from assms(2) obtain f where "objects w c = Some f" "block M f = Some p"
    by (auto simp add: owned_def split: option.splits)
  with assms(1) show ?thesis by (auto dest: exactly_once_block_live)
qed

lemma inv_remove:
  assumes inv: "exactly_once M w" and c: "objects w c = Some f"
    and o: "objects w' = (objects w)(c := None)"
    and h: "heap w' = (case block M f of None \<Rightarrow> heap w | Some p \<Rightarrow> (heap w)(p := None))"
    and al: "allocations (trace w') = allocations (trace w)"
    and de: "deallocations (trace w')
               = deallocations (trace w) @ (case block M f of None \<Rightarrow> [] | Some p \<Rightarrow> [p])"
    and fr: "fresh w' = fresh w"
  shows "exactly_once M w'"
proof (rule exactly_onceI)
  have ow: "owned M w' x = (if x = c then None else owned M w x)" for x
    using o by (simp add: owned_def)
  have oc: "owned M w c = block M f" using c by (simp add: owned_def)
  have keep: "heap w' q = heap w q" if "owned M w x = Some q" "x \<noteq> c" for x q
  proof (cases "block M f")
    case None then show ?thesis using h by simp
  next
    case (Some p)
    with exactly_once_inj [OF inv that(1), of c] oc that(2) have "q \<noteq> p" by auto
    with Some h show ?thesis by simp
  qed
  show "well_formed M w' g" if "objects w' x = Some g" for x g
  proof -
    from that o have xc: "x \<noteq> c" and g: "objects w x = Some g"
      by (auto split: if_splits)
    show ?thesis
    proof (rule well_formed_frame [OF exactly_once_well_formed [OF inv g]])
      fix q assume "block M g = Some q"
      with g have "owned M w x = Some q" by (simp add: owned_def)
      from keep [OF this xc] show "heap w' q = heap w q" .
    qed
  qed
  show "x = y" if "owned M w' x = Some p" "owned M w' y = Some p" for x y p
    using that ow exactly_once_inj [OF inv, of x p y] by (auto split: if_splits)
  show "\<exists>x. owned M w' x = Some q" if "heap w' q \<noteq> None" for q
  proof -
    from that h have hq: "heap w q \<noteq> None" and np: "block M f \<noteq> Some q"
      by (auto split: option.splits if_splits)
    from exactly_once_owner [OF inv hq] obtain x where x: "owned M w x = Some q" by blast
    with np oc have "x \<noteq> c" by auto
    with x ow show ?thesis by auto
  qed
  note tr = exactly_once_trace [OF inv]
  show "distinct (allocations (trace w'))" using tr al by simp
  have live: "p \<in> dom (heap w)" if "block M f = Some p" for p
    using exactly_once_block_live [OF inv c that] by auto
  have fresh_dealloc: "p \<notin> set (deallocations (trace w)) \<and> p \<in> set (allocations (trace w))"
    if "block M f = Some p" for p
    using live [OF that] exactly_once_dom [OF inv, of p] by (simp add: domIff)
  show "distinct (deallocations (trace w'))"
  proof (cases "block M f")
    case None with tr(2) de show ?thesis by simp
  next
    case (Some p) with tr(2) de fresh_dealloc [OF Some] show ?thesis by simp
  qed
  show "set (deallocations (trace w')) \<subseteq> set (allocations (trace w'))"
  proof (cases "block M f")
    case None with tr(3) de al show ?thesis by simp
  next
    case (Some p) with tr(3) de al fresh_dealloc [OF Some] show ?thesis by simp
  qed
  show "dom (heap w') = set (allocations (trace w')) - set (deallocations (trace w'))"
  proof (cases "block M f")
    case None with tr(4) de al h show ?thesis by simp
  next
    case (Some p)
    with h de al have "dom (heap w') = dom (heap w) - {p}"
      "set (deallocations (trace w')) = insert p (set (deallocations (trace w)))"
      "allocations (trace w') = allocations (trace w)"
      by simp_all
    with tr(4) show ?thesis by auto
  qed
  show "p < fresh w'" if "p \<in> set (allocations (trace w'))" for p
    using that tr(5) [of p] al fr by simp
qed

lemma inv_create:
  assumes inv: "exactly_once M w" and c: "objects w c = None"
    and o: "objects w' = (objects w)(c \<mapsto> f)"
    and wf: "well_formed M w' f"
    and h: "case block M f of
              None \<Rightarrow> heap w' = heap w \<and> allocations (trace w') = allocations (trace w) \<and>
                fresh w' = fresh w
            | Some p \<Rightarrow> p = fresh w \<and> (\<exists>x. heap w' = (heap w)(p \<mapsto> x)) \<and>
                allocations (trace w') = allocations (trace w) @ [p] \<and>
                fresh w' = Suc (fresh w)"
    and de: "deallocations (trace w') = deallocations (trace w)"
  shows "exactly_once M w'"
proof (rule exactly_onceI)
  have ow: "owned M w' x = (if x = c then block M f else owned M w x)" for x
    using o by (simp add: owned_def)
  have oc: "owned M w c = None" using c by (simp add: owned_def)
  have fn: "heap w (fresh w) = None" using inv by (rule exactly_once_fresh)
  have keep: "heap w' q = heap w q" if "heap w q \<noteq> None" for q
    using h that fn by (auto split: option.splits)
  have nf: "owned M w x \<noteq> Some (fresh w)" for x
    using owned_live [OF inv, of x "fresh w"] fn by auto
  show "well_formed M w' g" if "objects w' x = Some g" for x g
  proof (cases "x = c")
    case True
    with that o wf show ?thesis by simp
  next
    case False
    with that o have g: "objects w x = Some g" by simp
    show ?thesis
    proof (rule well_formed_frame [OF exactly_once_well_formed [OF inv g]])
      fix q assume "block M g = Some q"
      from exactly_once_block_live [OF inv g this] show "heap w' q = heap w q" by (rule keep)
    qed
  qed
  have bf: "block M f = Some p \<Longrightarrow> p = fresh w" for p
    using h by simp
  show "x = y" if "owned M w' x = Some p" "owned M w' y = Some p" for x y p
  proof -
    consider "x = c" "y = c" | "x = c" "y \<noteq> c" | "x \<noteq> c" "y = c" | "x \<noteq> c" "y \<noteq> c"
      by blast
    then show ?thesis
    proof cases
      case 1 then show ?thesis by simp
    next
      case 2
      with that ow [of x] ow [of y] have "block M f = Some p" "owned M w y = Some p" by simp_all
      with bf nf [of y] show ?thesis by simp
    next
      case 3
      with that ow [of x] ow [of y] have "block M f = Some p" "owned M w x = Some p" by simp_all
      with bf nf [of x] show ?thesis by simp
    next
      case 4
      with that ow [of x] ow [of y] have "owned M w x = Some p" "owned M w y = Some p"
        by simp_all
      then show ?thesis by (rule exactly_once_inj [OF inv])
    qed
  qed
  show "\<exists>x. owned M w' x = Some q" if "heap w' q \<noteq> None" for q
  proof (cases "block M f = Some q")
    case True
    with ow [of c] show ?thesis by auto
  next
    case False
    with that h have "heap w q \<noteq> None" by (auto split: option.splits if_splits)
    from exactly_once_owner [OF inv this] obtain x where x: "owned M w x = Some q" by blast
    with oc have "x \<noteq> c" by auto
    with x ow show ?thesis by auto
  qed
  note tr = exactly_once_trace [OF inv]
  have nal: "fresh w \<notin> set (allocations (trace w))" using tr(5) [of "fresh w"] by auto
  with tr(3) have nde: "fresh w \<notin> set (deallocations (trace w))" by blast
  show "distinct (deallocations (trace w'))" using tr(2) de by simp
  show "distinct (allocations (trace w'))"
  proof (cases "block M f")
    case None with tr(1) h show ?thesis by simp
  next
    case (Some p) with tr(1) h nal show ?thesis by simp
  qed
  show "set (deallocations (trace w')) \<subseteq> set (allocations (trace w'))"
  proof (cases "block M f")
    case None with tr(3) h de show ?thesis by simp
  next
    case (Some p) with tr(3) h de show ?thesis by auto
  qed
  show "dom (heap w') = set (allocations (trace w')) - set (deallocations (trace w'))"
  proof (cases "block M f")
    case None with tr(4) h de show ?thesis by simp
  next
    case (Some p)
    with h de have "dom (heap w') = insert (fresh w) (dom (heap w))"
      "set (allocations (trace w')) = insert (fresh w) (set (allocations (trace w)))"
      "deallocations (trace w') = deallocations (trace w)"
      by auto
    with tr(4) nde show ?thesis by auto
  qed
  show "p < fresh w'" if "p \<in> set (allocations (trace w'))" for p
  proof (cases "block M f")
    case None with that tr(5) [of p] h show ?thesis by simp
  next
    case (Some q) with that tr(5) [of p] h show ?thesis by auto
  qed
qed

lemma inv_transfer:
  assumes inv: "exactly_once M w" and c: "objects w c = None"
    and ot: "objects w other = Some fo"
    and o: "objects w' = (objects w)(other \<mapsto> fo', c \<mapsto> fc)"
    and bo: "block M fo' = None" and wfo: "well_formed M w' fo'"
    and bc: "block M fc = block M fo" and wfc: "well_formed M w' fc"
    and h: "heap w' = heap w" and fr: "fresh w' = fresh w"
    and al: "allocations (trace w') = allocations (trace w)"
    and de: "deallocations (trace w') = deallocations (trace w)"
  shows "exactly_once M w'"
proof (rule exactly_onceI)
  have ne: "c \<noteq> other" using c ot by auto
  have ow: "owned M w' x
      = (if x = c then block M fo else if x = other then None else owned M w x)" for x
    using o bo bc ne by (simp add: owned_def)
  have oo: "owned M w other = block M fo" using ot by (simp add: owned_def)
  have oc: "owned M w c = None" using c by (simp add: owned_def)
  show "well_formed M w' g" if "objects w' x = Some g" for x g
  proof -
    consider "x = c" | "x = other" "x \<noteq> c" | "x \<noteq> c" "x \<noteq> other" by blast
    then show ?thesis
    proof cases
      case 1 with that o wfc show ?thesis by simp
    next
      case 2 with that o wfo show ?thesis by simp
    next
      case 3
      with that o have g: "objects w x = Some g" by simp
      show ?thesis
        by (rule well_formed_frame [OF exactly_once_well_formed [OF inv g]]) (simp add: h)
    qed
  qed
  have orig: "owned M w (if x = c then other else x) = Some p"
    if "owned M w' x = Some p" for x p
    using that ow [of x] oo by (auto split: if_splits)
  show "x = y" if "owned M w' x = Some p" "owned M w' y = Some p" for x y p
  proof -
    from exactly_once_inj [OF inv orig [OF that(1)] orig [OF that(2)]]
    have e: "(if x = c then other else x) = (if y = c then other else y)" .
    have "x \<noteq> other" "y \<noteq> other"
      using that ow [of other] ne by (auto split: if_splits)
    with e show ?thesis by (auto split: if_splits)
  qed
  show "\<exists>x. owned M w' x = Some q" if "heap w' q \<noteq> None" for q
  proof -
    from that h have "heap w q \<noteq> None" by simp
    from exactly_once_owner [OF inv this] obtain x where x: "owned M w x = Some q" by blast
    show ?thesis
    proof (cases "x = other")
      case True
      with x oo ow [of c] show ?thesis by auto
    next
      case False
      with x oc have "x \<noteq> c" by auto
      with False x ow show ?thesis by auto
    qed
  qed
  note tr = exactly_once_trace [OF inv]
  show "distinct (allocations (trace w'))" using tr al by simp
  show "distinct (deallocations (trace w'))" using tr de by simp
  show "set (deallocations (trace w')) \<subseteq> set (allocations (trace w'))"
    using tr al de by simp
  show "dom (heap w') = set (allocations (trace w')) - set (deallocations (trace w'))"
    using tr al de h by simp
  show "p < fresh w'" if "p \<in> set (allocations (trace w'))" for p
    using that tr al fr by simp
qed

lemma preserves_Normal: "exactly_once M w' \<Longrightarrow> preserves M w (Normal u w')"
  by (simp add: preserves_def)

lemma exactly_once_failed_new:
  assumes inv: "exactly_once M w"
  shows "exactly_once M (failed_new w)"
proof (rule exactly_onceI)
  have fn: "heap w (fresh w) = None" using inv by (rule exactly_once_fresh)
  have o: "objects (failed_new w) = objects w" and h: "heap (failed_new w) = heap w"
    and al: "allocations (trace (failed_new w)) = allocations (trace w) @ [fresh w]"
    and de: "deallocations (trace (failed_new w)) = deallocations (trace w) @ [fresh w]"
    and fr: "fresh (failed_new w) = Suc (fresh w)"
    using fn by (simp_all add: failed_new_frame allocations_append deallocations_append)
  have ow: "owned M (failed_new w) x = owned M w x" for x
    by (simp add: owned_def o)
  note tr = exactly_once_trace [OF inv]
  have nal: "fresh w \<notin> set (allocations (trace w))" using tr(5) [of "fresh w"] by auto
  with tr(3) have nde: "fresh w \<notin> set (deallocations (trace w))" by blast
  show "well_formed M (failed_new w) g" if "objects (failed_new w) x = Some g" for x g
    by (rule well_formed_frame [OF exactly_once_well_formed [OF inv]])
      (use that o h in simp_all)
  show "x = y" if "owned M (failed_new w) x = Some p" "owned M (failed_new w) y = Some p"
    for x y p
    using that exactly_once_inj [OF inv, of x p y] by (simp add: ow)
  show "\<exists>x. owned M (failed_new w) x = Some q" if "heap (failed_new w) q \<noteq> None" for q
    using that exactly_once_owner [OF inv, of q] by (simp add: ow h)
  show "distinct (allocations (trace (failed_new w)))" using tr(1) nal by (simp add: al)
  show "distinct (deallocations (trace (failed_new w)))" using tr(2) nde by (simp add: de)
  show "set (deallocations (trace (failed_new w))) \<subseteq> set (allocations (trace (failed_new w)))"
    using tr(3) by (auto simp add: al de)
  show "dom (heap (failed_new w))
      = set (allocations (trace (failed_new w))) - set (deallocations (trace (failed_new w)))"
    using tr(4) nal by (auto simp add: al de h)
  show "p < fresh (failed_new w)" if "p \<in> set (allocations (trace (failed_new w)))" for p
    using that tr(5) [of p] by (auto simp add: al fr)
qed

lemma preserves_Raise:
  assumes "exactly_once M w" and "w' \<in> {w, failed_new w}"
  shows "preserves M w (Raise e w')"
  using assms exactly_once_failed_new [OF assms(1)] exactly_once_fresh [OF assms(1)]
  by (auto simp add: preserves_def failed_new_frame)

lemma preserves_Terminate: "preserves M w Terminate"
  by (simp add: preserves_def)

lemma removed_world:
  assumes inv: "exactly_once M w" and c: "objects w c = Some f"
  shows "\<exists>wi. exactly_once M wi \<and> objects wi = (objects w)(c := None) \<and>
           heap wi = (case block M f of None \<Rightarrow> heap w | Some p \<Rightarrow> (heap w)(p := None)) \<and>
           allocations (trace wi) = allocations (trace w) \<and>
           deallocations (trace wi)
             = deallocations (trace w) @ (case block M f of None \<Rightarrow> [] | Some p \<Rightarrow> [p]) \<and>
           fresh wi = fresh w"
proof -
  let ?wi = "w\<lparr>objects := (objects w)(c := None),
      heap := (case block M f of None \<Rightarrow> heap w | Some p \<Rightarrow> (heap w)(p := None)),
      trace := trace w @ (case block M f of None \<Rightarrow> [] | Some p \<Rightarrow> [Deallocated p])\<rparr>"
  have "exactly_once M ?wi"
    by (rule inv_remove [OF inv c])
      (simp_all add: allocations_append deallocations_append split: option.splits)
  then show ?thesis
    by (intro exI [of _ ?wi])
      (simp add: allocations_append deallocations_append split: option.splits)
qed

lemma default_preserves:
  assumes inv: "exactly_once M w" and c: "objects w c = None"
  shows "preserves M w (function_default c w)"
proof -
  let ?f = "\<lparr>storage = Indeterminate, desc = get_empty_func_descriptor\<rparr> :: ('a, 'b, 'c) func"
  have "exactly_once M (put c ?f w)"
    by (rule inv_create [OF inv c, where f = ?f])
      (simp_all add: put_def block_def well_formed_def get_empty_func_descriptor_def)
  then show ?thesis by (simp add: function_default_def preserves_def)
qed

lemma from_preserves:
  assumes inv: "exactly_once M w" and c: "objects w c = None"
  shows "preserves M w (function_from M c T v w)"
proof (cases "move_ctor T v")
  case (Inl e)
  with inv exactly_once_failed_new [OF inv] exactly_once_fresh [OF inv] show ?thesis
    by (simp add: function_from_def move_construct_def new_move_eq fits_small_def
        preserves_def failed_new_frame)
next
  case (Inr r)
  show ?thesis
  proof (cases "fits_small M T")
    case True
    with Inr have "function_from M c T v w
        = Normal () (put c \<lparr>storage = Inline (type_name T) (fst r), desc = descriptor_of T\<rparr>
            (w\<lparr>trace := trace w @ [Move_constructed (type_name T)]\<rparr>))"
      by (simp add: function_from_def move_construct_def log_event_def get_descriptor_def)
    moreover have "exactly_once M
        (put c \<lparr>storage = Inline (type_name T) (fst r), desc = descriptor_of T\<rparr>
            (w\<lparr>trace := trace w @ [Move_constructed (type_name T)]\<rparr>))"
      by (rule inv_create [OF inv c,
            where f = "\<lparr>storage = Inline (type_name T) (fst r), desc = descriptor_of T\<rparr>"])
        (use True in \<open>simp_all add: put_def block_small well_formed_small allocations_append
          deallocations_append\<close>)
    ultimately show ?thesis by (simp add: preserves_def)
  next
    case False
    let ?w' = "put c \<lparr>storage = Pointer (fresh w), desc = descriptor_of T\<rparr>
            (w\<lparr>heap := (heap w)(fresh w \<mapsto> Live (type_name T) (fst r)),
               fresh := Suc (fresh w),
               trace := trace w @ [Allocated (fresh w), Move_constructed (type_name T)]\<rparr>)"
    from False Inr have "function_from M c T v w = Normal () ?w'"
      by (simp add: function_from_def new_move_eq get_descriptor_def)
    moreover have "exactly_once M ?w'"
      by (rule inv_create [OF inv c,
            where f = "\<lparr>storage = Pointer (fresh w), desc = descriptor_of T\<rparr>"])
        (use False in \<open>auto simp add: put_def block_large well_formed_large allocations_append
          deallocations_append\<close>)
    ultimately show ?thesis by (simp add: preserves_def)
  qed
qed

lemma copy_preserves:
  assumes inv: "exactly_once M w" and c: "objects w c = None"
    and ot: "objects w other = Some fo"
  shows "preserves M w (function_copy M c other w)"
  using copy_effect [OF exactly_once_well_formed [OF inv ot], of Indeterminate]
proof (elim disjE exE conjE)
  fix e w'
  assume "copy (deref M (desc fo)) (storage fo) Indeterminate w = Raise e w'"
    and "w' \<in> {w, failed_new w}"
  with ot preserves_Raise [OF inv, of w' e] show ?thesis by (simp add: function_copy_def)
next
  fix buf w1 cs
  assume cp: "copy (deref M (desc fo)) (storage fo) Indeterminate w = Normal buf w1"
    and o1: "objects w1 = objects w" and t1: "trace w1 = trace w @ cs"
    and acq: "list_all is_acquire cs"
    and wfb: "well_formed M w1 \<lparr>storage = buf, desc = desc fo\<rparr>"
    and hp: "case block M \<lparr>storage = buf, desc = desc fo\<rparr> of
               None \<Rightarrow> heap w1 = heap w \<and> fresh w1 = fresh w \<and> allocations cs = []
             | Some p \<Rightarrow> p = fresh w \<and> (\<exists>x. heap w1 = (heap w)(p \<mapsto> x)) \<and>
                 fresh w1 = Suc (fresh w) \<and> allocations cs = [p]"
  let ?f = "\<lparr>storage = buf, desc = desc fo\<rparr>"
  have r: "function_copy M c other w = Normal () (put c ?f w1)"
    using ot cp by (simp add: function_copy_def)
  have "exactly_once M (put c ?f w1)"
  proof (rule inv_create [OF inv c])
    show "objects (put c ?f w1) = (objects w)(c \<mapsto> ?f)" by (simp add: put_def o1)
    show "well_formed M (put c ?f w1) ?f"
      by (rule well_formed_frame [OF wfb]) (simp add: put_def)
    show "case block M ?f of
            None \<Rightarrow> heap (put c ?f w1) = heap w \<and>
              allocations (trace (put c ?f w1)) = allocations (trace w) \<and>
              fresh (put c ?f w1) = fresh w
          | Some p \<Rightarrow> p = fresh w \<and> (\<exists>x. heap (put c ?f w1) = (heap w)(p \<mapsto> x)) \<and>
              allocations (trace (put c ?f w1)) = allocations (trace w) @ [p] \<and>
              fresh (put c ?f w1) = Suc (fresh w)"
      using hp t1 by (auto simp add: put_def allocations_append split: option.splits)
    show "deallocations (trace (put c ?f w1)) = deallocations (trace w)"
      using t1 acquire_no_deallocations [OF acq] by (simp add: put_def deallocations_append)
  qed
  with r show ?thesis by (simp add: preserves_def)
qed

lemma move_preserves:
  assumes inv: "exactly_once M w" and c: "objects w c = None"
    and ot: "objects w other = Some fo"
  shows "preserves M w (function_move M c other w)"
proof -
  let ?w0 = "put other (fo\<lparr>desc := get_empty_func_descriptor\<rparr>) w"
  have wf0: "well_formed M ?w0 fo"
    by (rule well_formed_frame [OF exactly_once_well_formed [OF inv ot]]) (simp add: put_def)
  from move_effect [OF wf0, of Indeterminate] show ?thesis
  proof (elim disjE exE conjE)
    assume "move (deref M (desc fo)) (storage fo) Indeterminate ?w0 = Terminate"
    with ot show ?thesis by (simp add: function_move_def preserves_def)
  next
    fix s' d' w1 ms
    assume mv: "move (deref M (desc fo)) (storage fo) Indeterminate ?w0 = Normal (s', d') w1"
      and o1: "objects w1 = objects ?w0" and h1: "heap w1 = heap ?w0"
      and f1: "fresh w1 = fresh ?w0" and t1: "trace w1 = trace ?w0 @ ms"
      and am: "allocations ms = []" and dm: "deallocations ms = []"
      and wfd: "well_formed M w1 \<lparr>storage = d', desc = desc fo\<rparr>"
      and bd: "block M \<lparr>storage = d', desc = desc fo\<rparr> = block M fo"
    let ?fo' = "\<lparr>storage = s', desc = get_empty_func_descriptor\<rparr>"
    let ?fc = "\<lparr>storage = d', desc = desc fo\<rparr>"
    let ?w' = "put c ?fc (put other ?fo' w1)"
    have r: "function_move M c other w = Normal () ?w'"
      using ot mv by (simp add: function_move_def)
    have "exactly_once M ?w'"
    proof (rule inv_transfer [OF inv c ot _ _ _ bd])
      show "objects ?w' = (objects w)(other \<mapsto> ?fo', c \<mapsto> ?fc)"
        by (simp add: put_def o1)
      show "block M ?fo' = None" by (simp add: block_def get_empty_func_descriptor_def)
      show "well_formed M ?w' ?fo'"
        by (simp add: well_formed_def get_empty_func_descriptor_def)
      show "well_formed M ?w' ?fc"
        by (rule well_formed_frame [OF wfd]) (simp add: put_def)
      show "heap ?w' = heap w" by (simp add: put_def h1)
      show "fresh ?w' = fresh w" by (simp add: put_def f1)
      show "allocations (trace ?w') = allocations (trace w)"
        by (simp add: put_def t1 allocations_append am)
      show "deallocations (trace ?w') = deallocations (trace w)"
        by (simp add: put_def t1 deallocations_append dm)
    qed
    with r show ?thesis by (simp add: preserves_def)
  qed
qed

lemma dtor_preserves:
  assumes inv: "exactly_once M w" and c: "objects w c = Some f"
  shows "preserves M w (function_dtor M c w)"
proof -
  from destroy_effect [OF exactly_once_well_formed [OF inv c]] obtain s' w1 ds where
    d: "destroy (deref M (desc f)) (storage f) w = Normal s' w1"
    and o1: "objects w1 = objects w" and f1: "fresh w1 = fresh w"
    and t1: "trace w1 = trace w @ ds" and rel: "list_all is_release ds"
    and h1: "case block M f of
              None \<Rightarrow> heap w1 = heap w \<and> deallocations ds = []
            | Some p \<Rightarrow> heap w1 = (heap w)(p := None) \<and> deallocations ds = [p]"
    by blast
  let ?w' = "w1\<lparr>objects := (objects w1)(c := None)\<rparr>"
  have r: "function_dtor M c w = Normal () ?w'"
    using c d by (simp add: function_dtor_def)
  have "exactly_once M ?w'"
    by (rule inv_remove [OF inv c])
      (use o1 f1 t1 h1 release_no_allocations [OF rel] in
        \<open>auto simp add: allocations_append deallocations_append split: option.splits\<close>)
  with r show ?thesis by (simp add: preserves_def)
qed


lemma assign_copy_preserves:
  assumes inv: "exactly_once M w" and c: "objects w c = Some fc"
    and ot: "objects w other = Some fo"
  shows "preserves M w (assign_copy M c other w)"
proof (cases "c = other")
  case True
  with inv show ?thesis by (simp add: assign_copy_def preserves_def)
next
  case ne: False
  have wfc: "well_formed M w fc" and wfo: "well_formed M w fo"
    using inv c ot by (auto intro: exactly_once_well_formed)
  from copy_effect [OF wfo, of Indeterminate] show ?thesis
  proof (elim disjE exE conjE)
    fix e w'
    assume "copy (deref M (desc fo)) (storage fo) Indeterminate w = Raise e w'"
      and "w' \<in> {w, failed_new w}"
    with ne c ot preserves_Raise [OF inv, of w' e] show ?thesis by (simp add: assign_copy_def)
  next
    fix buf w1 cs
    assume cp: "copy (deref M (desc fo)) (storage fo) Indeterminate w = Normal buf w1"
      and o1: "objects w1 = objects w" and t1: "trace w1 = trace w @ cs"
      and acq: "list_all is_acquire cs"
      and wfb: "well_formed M w1 \<lparr>storage = buf, desc = desc fo\<rparr>"
      and hp: "case block M \<lparr>storage = buf, desc = desc fo\<rparr> of
               None \<Rightarrow> heap w1 = heap w \<and> fresh w1 = fresh w \<and> allocations cs = []
             | Some p \<Rightarrow> p = fresh w \<and> (\<exists>x. heap w1 = (heap w)(p \<mapsto> x)) \<and>
                 fresh w1 = Suc (fresh w) \<and> allocations cs = [p]"
    let ?f = "\<lparr>storage = buf, desc = desc fo\<rparr>"
    have fn: "heap w (fresh w) = None" using inv by (rule exactly_once_fresh)
    have nfresh: "q \<noteq> fresh w" if "block M fc = Some q" for q
      using exactly_once_block_live [OF inv c that] fn by auto
    have wfc1: "well_formed M w1 fc"
    proof (rule well_formed_frame [OF wfc])
      fix q assume "block M fc = Some q"
      from nfresh [OF this] hp show "heap w1 q = heap w q" by (auto split: option.splits)
    qed
    from destroy_effect [OF wfc1] obtain s' w2 ds where
      d: "destroy (deref M (desc fc)) (storage fc) w1 = Normal s' w2"
      and o2: "objects w2 = objects w1" and f2: "fresh w2 = fresh w1"
      and t2: "trace w2 = trace w1 @ ds" and rel: "list_all is_release ds"
      and h2: "case block M fc of
              None \<Rightarrow> heap w2 = heap w1 \<and> deallocations ds = []
            | Some p \<Rightarrow> heap w2 = (heap w1)(p := None) \<and> deallocations ds = [p]"
      by blast
    let ?w' = "put c ?f w2"
    have r: "assign_copy M c other w = Normal () ?w'"
      using ne c ot cp d by (simp add: assign_copy_def)
    from removed_world [OF inv c] obtain wi where
      invi: "exactly_once M wi" and oi: "objects wi = (objects w)(c := None)"
      and hi: "heap wi = (case block M fc of None \<Rightarrow> heap w | Some p \<Rightarrow> (heap w)(p := None))"
      and ai: "allocations (trace wi) = allocations (trace w)"
      and di: "deallocations (trace wi)
             = deallocations (trace w) @ (case block M fc of None \<Rightarrow> [] | Some p \<Rightarrow> [p])"
      and fi: "fresh wi = fresh w"
      by blast
    have "exactly_once M ?w'"
    proof (rule inv_create [OF invi, where c = c and f = ?f])
      show "objects wi c = None" by (simp add: oi)
      show "objects ?w' = (objects wi)(c \<mapsto> ?f)" by (simp add: put_def o2 o1 oi)
      show "well_formed M ?w' ?f"
      proof (rule well_formed_frame [OF wfb])
        fix q assume b: "block M ?f = Some q"
        with hp have "q = fresh w" by simp
        with nfresh h2 show "heap ?w' q = heap w1 q"
          by (auto simp add: put_def split: option.splits)
      qed
      show "case block M ?f of
            None \<Rightarrow> heap ?w' = heap wi \<and>
              allocations (trace ?w') = allocations (trace wi) \<and> fresh ?w' = fresh wi
          | Some p \<Rightarrow> p = fresh wi \<and> (\<exists>x. heap ?w' = (heap wi)(p \<mapsto> x)) \<and>
              allocations (trace ?w') = allocations (trace wi) @ [p] \<and>
              fresh ?w' = Suc (fresh wi)"
      proof (cases "block M ?f")
        case None
        with hp h2 hi t1 t2 f2 ai fi release_no_allocations [OF rel] show ?thesis
          by (auto simp add: put_def allocations_append split: option.splits)
      next
        case (Some p)
        with hp obtain x where p: "p = fresh w" and hx: "heap w1 = (heap w)(p \<mapsto> x)"
          and f1: "fresh w1 = Suc (fresh w)" and a1: "allocations cs = [p]" by auto
        have "heap ?w' = (heap wi)(p \<mapsto> x)"
          using h2 hi hx nfresh p by (auto simp add: put_def fun_upd_twist split: option.splits)
        with Some p f1 f2 a1 t1 t2 ai fi release_no_allocations [OF rel] show ?thesis
          by (auto simp add: put_def allocations_append)
      qed
      show "deallocations (trace ?w') = deallocations (trace wi)"
        using t1 t2 di h2 acquire_no_deallocations [OF acq]
        by (auto simp add: put_def deallocations_append split: option.splits)
    qed
    with r show ?thesis by (simp add: preserves_def)
  qed
qed

lemma assign_move_preserves:
  assumes inv: "exactly_once M w" and c: "objects w c = Some fc"
    and ot: "objects w other = Some fo"
  shows "preserves M w (assign_move M c other w)"
proof (cases "c = other")
  case True
  with inv show ?thesis by (simp add: assign_move_def preserves_def)
next
  case ne: False
  have wfc: "well_formed M w fc" and wfo: "well_formed M w fo"
    using inv c ot by (auto intro: exactly_once_well_formed)
  from destroy_effect [OF wfc] obtain s1 w1 ds where
    d: "destroy (deref M (desc fc)) (storage fc) w = Normal s1 w1"
    and o1: "objects w1 = objects w" and f1: "fresh w1 = fresh w"
    and t1: "trace w1 = trace w @ ds" and rel: "list_all is_release ds"
    and h1: "case block M fc of
            None \<Rightarrow> heap w1 = heap w \<and> deallocations ds = []
          | Some p \<Rightarrow> heap w1 = (heap w)(p := None) \<and> deallocations ds = [p]"
    by blast
  have keep: "heap w1 p = heap w p" if "block M fo = Some p" for p
    using exactly_once_exclusive [OF inv ot c _ that] ne h1
    by (auto split: option.splits)
  have wfo1: "well_formed M w1 fo"
    by (rule well_formed_frame [OF wfo]) (rule keep)
  from move_effect [OF wfo1, of s1] show ?thesis
  proof (elim disjE exE conjE)
    assume "move (deref M (desc fo)) (storage fo) s1 w1 = Terminate"
    with ne c ot d show ?thesis by (simp add: assign_move_def preserves_def)
  next
    fix s' d' w2 ms
    assume mv: "move (deref M (desc fo)) (storage fo) s1 w1 = Normal (s', d') w2"
      and o2: "objects w2 = objects w1" and h2: "heap w2 = heap w1"
      and f2: "fresh w2 = fresh w1" and t2: "trace w2 = trace w1 @ ms"
      and am: "allocations ms = []" and dm: "deallocations ms = []"
      and wfd: "well_formed M w2 \<lparr>storage = d', desc = desc fo\<rparr>"
      and bd: "block M \<lparr>storage = d', desc = desc fo\<rparr> = block M fo"
    let ?fo' = "\<lparr>storage = s', desc = get_empty_func_descriptor\<rparr>"
    let ?f = "\<lparr>storage = d', desc = desc fo\<rparr>"
    let ?w' = "put other ?fo' (put c ?f w2)"
    have r: "assign_move M c other w = Normal () ?w'"
      using ne c ot d mv by (simp add: assign_move_def)
    from removed_world [OF inv c] obtain wi where
      invi: "exactly_once M wi" and oi: "objects wi = (objects w)(c := None)"
      and hi: "heap wi = (case block M fc of None \<Rightarrow> heap w | Some p \<Rightarrow> (heap w)(p := None))"
      and ai: "allocations (trace wi) = allocations (trace w)"
      and di: "deallocations (trace wi)
             = deallocations (trace w) @ (case block M fc of None \<Rightarrow> [] | Some p \<Rightarrow> [p])"
      and fi: "fresh wi = fresh w"
      by blast
    have "exactly_once M ?w'"
    proof (rule inv_transfer [OF invi, where c = c and other = other and fo = fo
          and fo' = ?fo' and fc = ?f])
      show "objects wi c = None" by (simp add: oi)
      show "objects wi other = Some fo" using ne ot by (simp add: oi)
      show "objects ?w' = (objects wi)(other \<mapsto> ?fo', c \<mapsto> ?f)"
        using ne by (simp add: put_def o2 o1 oi fun_upd_twist)
      show "block M ?fo' = None" by (simp add: block_def get_empty_func_descriptor_def)
      show "well_formed M ?w' ?fo'"
        by (simp add: well_formed_def get_empty_func_descriptor_def)
      show "block M ?f = block M fo" by (rule bd)
      show "well_formed M ?w' ?f"
        by (rule well_formed_frame [OF wfd]) (simp add: put_def)
      show "heap ?w' = heap wi"
        using h1 h2 hi by (auto simp add: put_def split: option.splits)
      show "fresh ?w' = fresh wi" by (simp add: put_def f1 f2 fi)
      show "allocations (trace ?w') = allocations (trace wi)"
        using release_no_allocations [OF rel]
        by (simp add: put_def t1 t2 allocations_append am ai)
      show "deallocations (trace ?w') = deallocations (trace wi)"
        using h1 by (auto simp add: put_def t1 t2 deallocations_append dm di split: option.splits)
    qed
    with r show ?thesis by (simp add: preserves_def)
  qed
qed

lemma step_preserves:
  assumes "exactly_once M w" and "in_scope x w"
  shows "preserves M w (step M x w)"
  using assms
  by (cases x)
    (auto intro: default_preserves from_preserves copy_preserves move_preserves
      assign_copy_preserves assign_move_preserves dtor_preserves)

lemma run_preserves:
  assumes "exactly_once M w"
  shows "run M xs w \<noteq> Broken \<and> (\<forall>w'. run M xs w = Completed w' \<longrightarrow> exactly_once M w')"
  using assms
proof (induction xs arbitrary: w)
  case Nil
  then show ?case by simp
next
  case (Cons x xs)
  show ?case
  proof (cases "in_scope x w")
    case False
    then show ?thesis by simp
  next
    case True
    from step_preserves [OF Cons.prems True] Cons.IH Cons.prems True show ?thesis
      by (cases "step M x w") (auto simp add: preserves_def)
  qed
qed

lemma exactly_once_empty_world: "exactly_once M empty_world"
  by (simp add: exactly_once_def owned_def example_defs)

lemma copy_duplicates_block:
  assumes inv: "exactly_once M w" and a: "objects w a = Some fa" and p: "block M fa = Some p"
    and r: "function_copy M b a w = Normal () w'"
  shows "owned M w' b = Some (fresh w) \<and> fresh w \<noteq> p \<and> heap w' p = heap w p \<and>
         heap w' (fresh w) \<noteq> None \<and>
         allocations (trace w') = allocations (trace w) @ [fresh w] \<and>
         deallocations (trace w') = deallocations (trace w)"
proof -
  from well_formed_block [OF exactly_once_well_formed [OF inv a] p] obtain T v where
    d: "desc fa = descriptor_of T" and l: "\<not> fits_small M T"
    and s: "storage fa = Pointer p" and h: "heap w p = Some (Live (type_name T) v)"
    by blast
  from exactly_once_fresh [OF inv] h have ne: "fresh w \<noteq> p" by auto
  from r a d l s h ne show ?thesis
    by (cases "copy_ctor T v")
      (auto simp add: function_copy_def result_def copy_T_large put_def owned_def block_large
        allocations_append deallocations_append)
qed

lemma move_transfers_block:
  assumes inv: "exactly_once M w" and a: "objects w a = Some fa" and p: "block M fa = Some p"
    and ab: "a \<noteq> b" and r: "function_move M b a w = Normal () w'"
  shows "owned M w' a = None \<and> owned M w' b = Some p \<and> heap w' = heap w \<and>
         trace w' = trace w"
proof -
  from well_formed_block [OF exactly_once_well_formed [OF inv a] p] obtain T v where
    d: "desc fa = descriptor_of T" and l: "\<not> fits_small M T"
    and s: "storage fa = Pointer p" and h: "heap w p = Some (Live (type_name T) v)"
    by blast
  from r a d l s h ab show ?thesis
    by (auto simp add: function_move_def result_def move_T_large put_def owned_def
        block_def big_cast_def get_empty_func_descriptor_def)
qed

lemma assign_copy_duplicates_block:
  assumes inv: "exactly_once M w" and a: "objects w a = Some fa" and p: "block M fa = Some p"
    and b: "objects w b = Some fb" and ab: "a \<noteq> b"
    and r: "assign_copy M b a w = Normal () w'"
  shows "owned M w' a = Some p \<and> owned M w' b = Some (fresh w) \<and> fresh w \<noteq> p \<and>
         heap w' p = heap w p \<and> heap w' (fresh w) \<noteq> None \<and>
         allocations (trace w') = allocations (trace w) @ [fresh w] \<and>
         deallocations (trace w')
           = deallocations (trace w) @ (case block M fb of None \<Rightarrow> [] | Some q \<Rightarrow> [q])"
proof -
  from well_formed_block [OF exactly_once_well_formed [OF inv a] p] obtain T v where
    d: "desc fa = descriptor_of T" and l: "\<not> fits_small M T"
    and s: "storage fa = Pointer p" and h: "heap w p = Some (Live (type_name T) v)"
    by blast
  have fn: "heap w (fresh w) = None" using inv by (rule exactly_once_fresh)
  with h have ne: "fresh w \<noteq> p" by auto
  from r a b ab d l s h obtain v' where cc: "copy_ctor T v = Inr v'"
    by (cases "copy_ctor T v") (auto simp add: assign_copy_def result_def copy_T_large)
  let ?w1 = "w\<lparr>heap := (heap w)(fresh w \<mapsto> Live (type_name T) v'),
                fresh := Suc (fresh w),
                trace := trace w @ [Allocated (fresh w), Copy_constructed (type_name T)]\<rparr>"
  have cp: "copy (deref M (desc fa)) (storage fa) Indeterminate w = Normal (Pointer (fresh w)) ?w1"
    using d l s h cc by (simp add: result_def copy_T_large)
  have nfresh: "q \<noteq> fresh w" if "block M fb = Some q" for q
    using exactly_once_block_live [OF inv b that] fn by auto
  have wfb1: "well_formed M ?w1 fb"
    by (rule well_formed_frame [OF exactly_once_well_formed [OF inv b]])
      (use nfresh in auto)
  from destroy_effect [OF wfb1] obtain s' w2 ds where
    ds: "destroy (deref M (desc fb)) (storage fb) ?w1 = Normal s' w2"
    and o2: "objects w2 = objects ?w1" and t2: "trace w2 = trace ?w1 @ ds"
    and rel: "list_all is_release ds"
    and h2: "case block M fb of
            None \<Rightarrow> heap w2 = heap ?w1 \<and> deallocations ds = []
          | Some q \<Rightarrow> heap w2 = (heap ?w1)(q := None) \<and> deallocations ds = [q]"
    by blast
  have w': "w' = put b \<lparr>storage = Pointer (fresh w), desc = desc fa\<rparr> w2"
    using r a b ab cp ds by (simp add: assign_copy_def)
  have np: "block M fb \<noteq> Some p"
    by (rule exactly_once_exclusive [OF inv a b ab p])
  have hp: "heap w2 p = heap w p" and hf: "heap w2 (fresh w) \<noteq> None"
    using h2 np ne nfresh by (auto split: option.splits)
  show ?thesis
    using a p ab d l o2 t2 h2 hp hf ne release_no_allocations [OF rel]
    by (auto simp add: w' put_def owned_def block_large allocations_append
        deallocations_append split: option.splits)
qed

lemma assign_move_transfers_block:
  assumes inv: "exactly_once M w" and a: "objects w a = Some fa" and p: "block M fa = Some p"
    and b: "objects w b = Some fb" and ab: "a \<noteq> b"
    and r: "assign_move M b a w = Normal () w'"
  shows "owned M w' a = None \<and> owned M w' b = Some p \<and> heap w' p = heap w p \<and>
         allocations (trace w') = allocations (trace w) \<and>
         deallocations (trace w')
           = deallocations (trace w) @ (case block M fb of None \<Rightarrow> [] | Some q \<Rightarrow> [q])"
proof -
  from well_formed_block [OF exactly_once_well_formed [OF inv a] p] obtain T v where
    d: "desc fa = descriptor_of T" and l: "\<not> fits_small M T"
    and s: "storage fa = Pointer p" and h: "heap w p = Some (Live (type_name T) v)"
    by blast
  from destroy_effect [OF exactly_once_well_formed [OF inv b]] obtain s1 w1 ds where
    ds: "destroy (deref M (desc fb)) (storage fb) w = Normal s1 w1"
    and o1: "objects w1 = objects w" and t1: "trace w1 = trace w @ ds"
    and rel: "list_all is_release ds"
    and h1: "case block M fb of
            None \<Rightarrow> heap w1 = heap w \<and> deallocations ds = []
          | Some q \<Rightarrow> heap w1 = (heap w)(q := None) \<and> deallocations ds = [q]"
    by blast
  have mv: "move (deref M (desc fa)) (storage fa) s1 w1 = Normal (Pointer p, Pointer p) w1"
    using d l s by (simp add: result_def move_T_large)
  have w': "w' = put a \<lparr>storage = Pointer p, desc = get_empty_func_descriptor\<rparr>
                   (put b \<lparr>storage = Pointer p, desc = desc fa\<rparr> w1)"
    using r a b ab ds mv by (simp add: assign_move_def)
  have np: "block M fb \<noteq> Some p"
    by (rule exactly_once_exclusive [OF inv a b ab p])
  have hp: "heap w1 p = heap w p"
    using h1 np by (auto split: option.splits)
  show ?thesis
    using ab d l t1 h1 hp release_no_allocations [OF rel]
    by (auto simp add: w' put_def owned_def block_def big_cast_def get_empty_func_descriptor_def
        allocations_append deallocations_append split: option.splits)
qed

text \<open>
  C8. From a state of \<open>part_000\<close> that satisfies the ownership invariant (the empty state
  does), every chain of default, value, copy and move constructions, copy and move
  assignments and destructions, each in scope, with exceptions caught by the client, runs
  without an undefined access (no block is freed twice, none is used after it was freed),
  and where it completes the invariant holds again: every object that holds a large type
  has its live block, no block belongs to two objects, every block belongs to a living
  object, and no address was allocated or deallocated twice. When no object lives at the
  end, the heap is empty and the addresses deallocated are exactly those allocated. Copy
  construction and copy assignment from an object that owns a block \<open>p\<close> leave \<open>p\<close> as it
  is and give the target one newly allocated block; move construction and move
  assignment give the target the block \<open>p\<close> itself, leave the source owning nothing and
  allocate nothing. An assignment deallocates the block the target owned before, and
  nothing else.
\<close>

theorem exactly_once_ownership:
  assumes inv: "exactly_once M w"
  shows "run M xs w \<noteq> Broken \<and>
     (\<forall>w'. run M xs w = Completed w' \<longrightarrow>
        exactly_once M w' \<and>
        (objects w' = Map.empty \<longrightarrow>
           heap w' = Map.empty \<and>
           set (deallocations (trace w')) = set (allocations (trace w')))) \<and>
     (\<forall>a b fa p w'. objects w a = Some fa \<and> block M fa = Some p \<and> a \<noteq> b \<longrightarrow>
        (function_copy M b a w = Normal () w' \<longrightarrow>
           owned M w' b = Some (fresh w) \<and> fresh w \<noteq> p \<and> heap w' p = heap w p \<and>
           heap w' (fresh w) \<noteq> None \<and>
           allocations (trace w') = allocations (trace w) @ [fresh w] \<and>
           deallocations (trace w') = deallocations (trace w)) \<and>
        (function_move M b a w = Normal () w' \<longrightarrow>
           owned M w' a = None \<and> owned M w' b = Some p \<and> heap w' = heap w \<and>
           trace w' = trace w)) \<and>
     (\<forall>a b fa fb p w'.
        objects w a = Some fa \<and> block M fa = Some p \<and> objects w b = Some fb \<and> a \<noteq> b \<longrightarrow>
        (assign_copy M b a w = Normal () w' \<longrightarrow>
           owned M w' a = Some p \<and> owned M w' b = Some (fresh w) \<and> fresh w \<noteq> p \<and>
           heap w' p = heap w p \<and> heap w' (fresh w) \<noteq> None \<and>
           allocations (trace w') = allocations (trace w) @ [fresh w] \<and>
           deallocations (trace w')
             = deallocations (trace w) @ (case block M fb of None \<Rightarrow> [] | Some q \<Rightarrow> [q])) \<and>
        (assign_move M b a w = Normal () w' \<longrightarrow>
           owned M w' a = None \<and> owned M w' b = Some p \<and> heap w' p = heap w p \<and>
           allocations (trace w') = allocations (trace w) \<and>
           deallocations (trace w')
             = deallocations (trace w) @ (case block M fb of None \<Rightarrow> [] | Some q \<Rightarrow> [q])))"
proof (intro conjI allI impI)
  show "run M xs w \<noteq> Broken"
    using run_preserves [OF inv] by blast
next
  fix w' assume "run M xs w = Completed w'"
  then show "exactly_once M w'"
    using run_preserves [OF inv] by blast
next
  fix w' assume r: "run M xs w = Completed w'" and e: "objects w' = Map.empty"
  have i: "exactly_once M w'" using run_preserves [OF inv] r by blast
  show "heap w' = Map.empty"
  proof (rule ext)
    fix q
    show "heap w' q = None"
    proof (rule ccontr)
      assume "heap w' q \<noteq> None"
      from exactly_once_owner [OF i this] e show False by (simp add: owned_def)
    qed
  qed
  then have "dom (heap w') = {}" by simp
  with exactly_once_trace(3,4) [OF i]
  show "set (deallocations (trace w')) = set (allocations (trace w'))" by blast
next
  fix a b fa p w'
  assume h: "objects w a = Some fa \<and> block M fa = Some p \<and> a \<noteq> b"
    and r: "function_copy M b a w = Normal () w'"
  from copy_duplicates_block [OF inv _ _ r] h
  show "owned M w' b = Some (fresh w)" "fresh w \<noteq> p" "heap w' p = heap w p"
    "heap w' (fresh w) \<noteq> None"
    "allocations (trace w') = allocations (trace w) @ [fresh w]"
    "deallocations (trace w') = deallocations (trace w)"
    by blast+
next
  fix a b fa p w'
  assume h: "objects w a = Some fa \<and> block M fa = Some p \<and> a \<noteq> b"
    and r: "function_move M b a w = Normal () w'"
  from move_transfers_block [OF inv _ _ _ r] h
  show "owned M w' a = None" "owned M w' b = Some p" "heap w' = heap w" "trace w' = trace w"
    by blast+
next
  fix a b fa fb p w'
  assume h: "objects w a = Some fa \<and> block M fa = Some p \<and> objects w b = Some fb \<and> a \<noteq> b"
    and r: "assign_copy M b a w = Normal () w'"
  from h have "objects w a = Some fa" "block M fa = Some p" "objects w b = Some fb" "a \<noteq> b"
    by simp_all
  from assign_copy_duplicates_block [OF inv this r]
  show "owned M w' a = Some p" "owned M w' b = Some (fresh w)" "fresh w \<noteq> p"
    "heap w' p = heap w p" "heap w' (fresh w) \<noteq> None"
    "allocations (trace w') = allocations (trace w) @ [fresh w]"
    "deallocations (trace w')
       = deallocations (trace w) @ (case block M fb of None \<Rightarrow> [] | Some q \<Rightarrow> [q])"
    by blast+
next
  fix a b fa fb p w'
  assume h: "objects w a = Some fa \<and> block M fa = Some p \<and> objects w b = Some fb \<and> a \<noteq> b"
    and r: "assign_move M b a w = Normal () w'"
  from h have "objects w a = Some fa" "block M fa = Some p" "objects w b = Some fb" "a \<noteq> b"
    by simp_all
  from assign_move_transfers_block [OF inv this r]
  show "owned M w' a = None" "owned M w' b = Some p" "heap w' p = heap w p"
    "allocations (trace w') = allocations (trace w)"
    "deallocations (trace w')
       = deallocations (trace w) @ (case block M fb of None \<Rightarrow> [] | Some q \<Rightarrow> [q])"
    by blast+
qed

theorem exactly_once_ownership_witness:
  "exactly_once lp64 empty_world \<and>
   (\<exists>w'. run lp64 chain empty_world = Completed w' \<and> exactly_once lp64 w' \<and>
      objects w' = Map.empty \<and> heap w' = Map.empty \<and>
      allocations (trace w') = [0, 1, 2] \<and> deallocations (trace w') = [1, 2, 0])"
proof -
  have "\<exists>w'. run lp64 chain empty_world = Completed w' \<and> objects w' = Map.empty \<and>
      heap w' = Map.empty \<and> allocations (trace w') = [0, 1, 2] \<and>
      deallocations (trace w') = [1, 2, 0]"
    by (simp add: chain_def member_defs memory_defs table_defs example_defs fun_upd_twist)
  with exactly_once_ownership [OF exactly_once_empty_world, of lp64 chain]
    exactly_once_empty_world [of lp64]
  show ?thesis by blast
qed

end
